theory Spec2Isabelle
  imports Main "HOL-Library.Sublist" "HOL-Library.Multiset"
begin

section \<open>Python dates and datetimes\<close>

text \<open>
  The calendar module of JARVIS (\<^verbatim>\<open>modules/calendar_module.py\<close>) works on naive
  \<^verbatim>\<open>datetime\<close> and \<^verbatim>\<open>date\<close> values of the Python standard library. A date is
  modelled by its proleptic Gregorian ordinal (\<^verbatim>\<open>date.toordinal()\<close>, day 1 is
  0001-01-01), a datetime by the number of microseconds since 0001-01-01T00:00:00 and a
  timedelta by a number of microseconds. Comparison of datetimes is comparison of these
  numbers. Python's dates end at 9999-12-31; arithmetic that leaves the range raises
  \<^verbatim>\<open>OverflowError\<close>, a constructor called with a field out of range raises
  \<^verbatim>\<open>ValueError\<close>. An assignment that an object refuses raises \<^verbatim>\<open>TypeError\<close>
  or \<^verbatim>\<open>AttributeError\<close>.
\<close>

type_synonym date = int
type_synonym datetime = int
type_synonym timedelta = int

datatype error = ValueError | OverflowError | TypeError | AttributeError

definition us_per_second :: int where
  "us_per_second = 1000000"

definition us_per_minute :: int where
  "us_per_minute = 60000000"

definition us_per_hour :: int where
  "us_per_hour = 3600000000"

definition us_per_day :: int where
  "us_per_day = 86400000000"

definition MINYEAR :: int where
  "MINYEAR = 1"

definition MAXYEAR :: int where
  "MAXYEAR = 9999"

definition MAXORDINAL :: int where
  "MAXORDINAL = 3652059"

definition DAYS_IN_MONTH :: "int list" where
  "DAYS_IN_MONTH = [-1, 31, 28, 31, 30, 31, 30, 31, 31, 30, 31, 30, 31]"

definition DAYS_BEFORE_MONTH :: "int list" where
  "DAYS_BEFORE_MONTH = [-1, 0, 31, 59, 90, 120, 151, 181, 212, 243, 273, 304, 334]"

definition is_leap :: "int \<Rightarrow> bool" where
  "is_leap y = (y mod 4 = 0 \<and> (y mod 100 \<noteq> 0 \<or> y mod 400 = 0))"

definition days_before_year :: "int \<Rightarrow> int" where
  "days_before_year y = (let y1 = y - 1 in y1 * 365 + y1 div 4 - y1 div 100 + y1 div 400)"

definition days_in_month :: "int \<Rightarrow> int \<Rightarrow> int" where
  "days_in_month y m = (if m = 2 \<and> is_leap y then 29 else DAYS_IN_MONTH ! nat m)"

definition days_before_month :: "int \<Rightarrow> int \<Rightarrow> int" where
  "days_before_month y m = DAYS_BEFORE_MONTH ! nat m + (if m > 2 \<and> is_leap y then 1 else 0)"

definition ymd2ord :: "int \<Rightarrow> int \<Rightarrow> int \<Rightarrow> date" where
  "ymd2ord y m d = days_before_year y + days_before_month y m + d"

text \<open>\<^verbatim>\<open>_ord2ymd\<close> of the standard library: the year, month and day of an ordinal.
  \<open>month_day\<close> is its last part, which finds the month and the day from the number of
  days before the day in its year: the estimate \<^verbatim>\<open>(n + 50) >> 5\<close> of the month is
  either exact or one too large.\<close>

definition month_day :: "bool \<Rightarrow> int \<Rightarrow> int \<times> int" where
  "month_day leapyear n =
     (let m = (n + 50) div 32;
          preceding = DAYS_BEFORE_MONTH ! nat m + (if m > 2 \<and> leapyear then 1 else 0)
      in if preceding > n
         then (m - 1,
               n - (preceding - (DAYS_IN_MONTH ! nat (m - 1)
                                 + (if m - 1 = 2 \<and> leapyear then 1 else 0))) + 1)
         else (m, n - preceding + 1))"

definition ord2ymd :: "date \<Rightarrow> int \<times> int \<times> int" where
  "ord2ymd n0 =
     (let n = n0 - 1;
          n400 = n div 146097; n = n mod 146097;
          n100 = n div 36524; n = n mod 36524;
          n4 = n div 1461; n = n mod 1461;
          n1 = n div 365; n = n mod 365;
          y = n400 * 400 + 1 + n100 * 100 + n4 * 4 + n1
      in if n1 = 4 \<or> n100 = 4 then (y - 1, 12, 31)
         else
           let leapyear = (n1 = 3 \<and> (n4 \<noteq> 24 \<or> n100 = 3));
               (m, d) = month_day leapyear n
           in (y, m, d))"

definition date_year :: "date \<Rightarrow> int" where
  "date_year d = fst (ord2ymd d)"

definition date_month :: "date \<Rightarrow> int" where
  "date_month d = fst (snd (ord2ymd d))"

definition date_day :: "date \<Rightarrow> int" where
  "date_day d = snd (snd (ord2ymd d))"

text \<open>\<^verbatim>\<open>date(year, month, day)\<close>: the constructor checks its fields.\<close>

definition mk_date :: "int \<Rightarrow> int \<Rightarrow> int \<Rightarrow> error + date" where
  "mk_date y m d =
     (if \<not> (MINYEAR \<le> y \<and> y \<le> MAXYEAR) then Inl ValueError
      else if \<not> (1 \<le> m \<and> m \<le> 12) then Inl ValueError
      else if \<not> (1 \<le> d \<and> d \<le> days_in_month y m) then Inl ValueError
      else Inr (ymd2ord y m d))"

text \<open>\<^verbatim>\<open>d + timedelta(days=k)\<close> on dates (\<^verbatim>\<open>d - timedelta(days=k)\<close> is the call with
  \<open>- k\<close>).\<close>

definition date_add_days :: "date \<Rightarrow> int \<Rightarrow> error + date" where
  "date_add_days d k =
     (let r = d + k in if 0 < r \<and> r \<le> MAXORDINAL then Inr r else Inl OverflowError)"

text \<open>\<^verbatim>\<open>date.weekday()\<close>: Monday is 0, Sunday is 6.\<close>

definition weekday :: "date \<Rightarrow> int" where
  "weekday d = (d + 6) mod 7"

text \<open>\<^verbatim>\<open>datetime.date()\<close> and the year and month of a datetime.\<close>

definition date_of :: "datetime \<Rightarrow> date" where
  "date_of t = t div us_per_day + 1"

definition dt_year :: "datetime \<Rightarrow> int" where
  "dt_year t = date_year (date_of t)"

definition dt_month :: "datetime \<Rightarrow> int" where
  "dt_month t = date_month (date_of t)"

text \<open>\<^verbatim>\<open>datetime.combine(d, time(hour=h, minute=m))\<close>.\<close>

definition combine :: "date \<Rightarrow> int \<Rightarrow> int \<Rightarrow> datetime" where
  "combine d h m = (d - 1) * us_per_day + h * us_per_hour + m * us_per_minute"

definition dt_max :: datetime where
  "dt_max = MAXORDINAL * us_per_day - 1"

text \<open>\<^verbatim>\<open>t + delta\<close> for a datetime and a timedelta.\<close>

definition dt_add :: "datetime \<Rightarrow> timedelta \<Rightarrow> error + datetime" where
  "dt_add t delta =
     (let r = t + delta in if 0 \<le> r \<and> r \<le> dt_max then Inr r else Inl OverflowError)"

text \<open>\<^verbatim>\<open>timedelta(minutes=m)\<close> and the \<^verbatim>\<open>seconds\<close> attribute of a timedelta, which
  leaves out the whole days of the difference.\<close>

definition minutes :: "int \<Rightarrow> timedelta" where
  "minutes m = m * us_per_minute"

definition td_seconds :: "timedelta \<Rightarrow> int" where
  "td_seconds delta = (delta mod us_per_day) div us_per_second"

subsection \<open>ISO format\<close>

definition digit_char :: "nat \<Rightarrow> char" where
  "digit_char n = char_of (48 + n)"

fun zero_padded :: "nat \<Rightarrow> nat \<Rightarrow> string" where
  "zero_padded 0 n = []"
| "zero_padded (Suc k) n = zero_padded k (n div 10) @ [digit_char (n mod 10)]"

text \<open>\<^verbatim>\<open>datetime.isoformat()\<close> of a naive datetime:
  \<^verbatim>\<open>YYYY-MM-DDTHH:MM:SS\<close>, followed by \<^verbatim>\<open>.ffffff\<close> when the microsecond is not 0.\<close>

definition isoformat :: "datetime \<Rightarrow> string" where
  "isoformat t =
     (let (y, m, d) = ord2ymd (date_of t);
          r = t mod us_per_day;
          hh = r div us_per_hour;
          mm = (r mod us_per_hour) div us_per_minute;
          ss = (r mod us_per_minute) div us_per_second;
          us = r mod us_per_second
      in zero_padded 4 (nat y) @ ''-'' @ zero_padded 2 (nat m) @ ''-'' @ zero_padded 2 (nat d)
         @ ''T'' @ zero_padded 2 (nat hh) @ '':'' @ zero_padded 2 (nat mm) @ '':''
         @ zero_padded 2 (nat ss)
         @ (if us = 0 then [] else ''.'' @ zero_padded 6 (nat us)))"

definition digit_val :: "char \<Rightarrow> nat option" where
  "digit_val c =
     (let n = (of_char c :: nat) in if 48 \<le> n \<and> n \<le> 57 then Some (n - 48) else None)"

fun parse_digits :: "nat \<Rightarrow> string \<Rightarrow> nat option" where
  "parse_digits acc [] = Some acc"
| "parse_digits acc (c # cs) =
     (case digit_val c of None \<Rightarrow> None | Some v \<Rightarrow> parse_digits (acc * 10 + v) cs)"

definition mk_datetime :: "int \<Rightarrow> int \<Rightarrow> int \<Rightarrow> int \<Rightarrow> int \<Rightarrow> int \<Rightarrow> int \<Rightarrow> error + datetime" where
  "mk_datetime y m d hh mm ss us =
     (case mk_date y m d of
        Inl e \<Rightarrow> Inl e
      | Inr ord \<Rightarrow>
          if \<not> (0 \<le> hh \<and> hh \<le> 23) then Inl ValueError
          else if \<not> (0 \<le> mm \<and> mm \<le> 59) then Inl ValueError
          else if \<not> (0 \<le> ss \<and> ss \<le> 59) then Inl ValueError
          else if \<not> (0 \<le> us \<and> us \<le> 999999) then Inl ValueError
          else Inr ((ord - 1) * us_per_day + hh * us_per_hour + mm * us_per_minute
                    + ss * us_per_second + us))"

text \<open>\<^verbatim>\<open>datetime.fromisoformat\<close>, on the two shapes that \<^verbatim>\<open>isoformat\<close> writes for a
  naive datetime (19 characters, or 26 with the microseconds; any character may stand for
  the \<^verbatim>\<open>T\<close>). The other shapes that Python reads (a date alone, hours alone, an
  offset) are outside this model, which answers \<^verbatim>\<open>ValueError\<close> for them.\<close>

definition fromisoformat :: "string \<Rightarrow> error + datetime" where
  "fromisoformat s =
     (if (length s = 19 \<or> (length s = 26 \<and> s ! 19 = CHR ''.''))
         \<and> s ! 4 = CHR ''-'' \<and> s ! 7 = CHR ''-'' \<and> s ! 13 = CHR '':'' \<and> s ! 16 = CHR '':''
      then
        (case (parse_digits 0 (take 4 s), parse_digits 0 (take 2 (drop 5 s)),
               parse_digits 0 (take 2 (drop 8 s)), parse_digits 0 (take 2 (drop 11 s)),
               parse_digits 0 (take 2 (drop 14 s)), parse_digits 0 (take 2 (drop 17 s)),
               parse_digits 0 (drop 20 s)) of
           (Some y, Some m, Some d, Some hh, Some mm, Some ss, Some us) \<Rightarrow>
             mk_datetime (int y) (int m) (int d) (int hh) (int mm) (int ss) (int us)
         | _ \<Rightarrow> Inl ValueError)
      else Inl ValueError)"

section \<open>Event records\<close>

text \<open>
  The dataclass \<^verbatim>\<open>CalendarEvent\<close>. The field \<^verbatim>\<open>id\<close> is \<open>id'\<close> here. Besides its
  eleven fields an object can carry instance attributes that \<^verbatim>\<open>update_event\<close> stored
  under the name of an attribute of the class. Two of them are read again by the module
  and are part of the record: \<open>to_dict_hidden\<close> says that an instance attribute named
  \<^verbatim>\<open>to_dict\<close> hides the method, and \<open>fields_attr\<close> holds the instance attribute named
  \<^verbatim>\<open>__dataclass_fields__\<close>, which hides the table of fields that \<^verbatim>\<open>asdict\<close> reads.
  Of such a value only one thing matters, whether it is the empty dictionary. An event
  that was created or loaded has neither attribute.
\<close>

datatype attr_value = Empty_dict | Other_data

record calendar_event =
  id' :: string
  title :: string
  description :: string
  start_time :: datetime
  end_time :: datetime
  location :: string
  attendees :: "string list"
  reminder_minutes :: int
  is_all_day :: bool
  recurrence :: string
  created_at :: datetime
  to_dict_hidden :: bool
  fields_attr :: "attr_value option"

text \<open>The dictionary that \<^verbatim>\<open>to_dict\<close> builds and \<^verbatim>\<open>json.dump\<close> writes: the fields of
  the event, with the three datetimes as strings.\<close>

record event_dict =
  d_id :: string
  d_title :: string
  d_description :: string
  d_start_time :: string
  d_end_time :: string
  d_location :: string
  d_attendees :: "string list"
  d_reminder_minutes :: int
  d_is_all_day :: bool
  d_recurrence :: string
  d_created_at :: string

text \<open>
  When the table of fields is hidden by an empty dictionary, \<^verbatim>\<open>asdict\<close> finds no
  field and the dictionary holds the three timestamps only.
\<close>

datatype json_object =
    Event_object event_dict
  | Timestamps_object string string string

text \<open>
  \<^verbatim>\<open>to_dict\<close>, as \<^verbatim>\<open>_save_events\<close> calls it: \<^verbatim>\<open>event.to_dict()\<close> looks the method up
  through the object, so a hiding attribute (a value, which cannot be called) raises
  \<^verbatim>\<open>TypeError\<close>; \<^verbatim>\<open>asdict\<close> raises \<^verbatim>\<open>AttributeError\<close> on a hiding table that is not
  a dictionary of fields.
\<close>

definition to_dict :: "calendar_event \<Rightarrow> error + json_object" where
  "to_dict e =
     (if to_dict_hidden e then Inl TypeError
      else (case fields_attr e of
              Some Other_data \<Rightarrow> Inl AttributeError
            | Some Empty_dict \<Rightarrow>
                Inr (Timestamps_object (isoformat (start_time e)) (isoformat (end_time e))
                       (isoformat (created_at e)))
            | None \<Rightarrow>
                Inr (Event_object
                  \<lparr>d_id = id' e, d_title = title e, d_description = description e,
                   d_start_time = isoformat (start_time e), d_end_time = isoformat (end_time e),
                   d_location = location e, d_attendees = attendees e,
                   d_reminder_minutes = reminder_minutes e, d_is_all_day = is_all_day e,
                   d_recurrence = recurrence e, d_created_at = isoformat (created_at e)\<rparr>)))"

text \<open>\<^verbatim>\<open>from_dict\<close>: the three strings are parsed, then the constructor is called with
  the entries of the dictionary; without the entries of the required fields it raises
  \<^verbatim>\<open>TypeError\<close>.\<close>

fun from_dict :: "json_object \<Rightarrow> error + calendar_event" where
  "from_dict (Event_object d) =
     (case fromisoformat (d_start_time d) of
        Inl e \<Rightarrow> Inl e
      | Inr st \<Rightarrow>
          (case fromisoformat (d_end_time d) of
             Inl e \<Rightarrow> Inl e
           | Inr en \<Rightarrow>
               (case fromisoformat (d_created_at d) of
                  Inl e \<Rightarrow> Inl e
                | Inr cr \<Rightarrow>
                    Inr \<lparr>id' = d_id d, title = d_title d, description = d_description d,
                         start_time = st, end_time = en, location = d_location d,
                         attendees = d_attendees d, reminder_minutes = d_reminder_minutes d,
                         is_all_day = d_is_all_day d, recurrence = d_recurrence d,
                         created_at = cr, to_dict_hidden = False, fields_attr = None\<rparr>)))"
| "from_dict (Timestamps_object a b c) =
     (case fromisoformat a of
        Inl e \<Rightarrow> Inl e
      | Inr st \<Rightarrow>
          (case fromisoformat b of
             Inl e \<Rightarrow> Inl e
           | Inr en \<Rightarrow> (case fromisoformat c of Inl e \<Rightarrow> Inl e | Inr cr \<Rightarrow> Inl TypeError)))"

section \<open>The calendar module and its store\<close>

text \<open>
  The state of a \<^verbatim>\<open>CalendarModule\<close>: the list \<^verbatim>\<open>self.events\<close> in memory and the
  content of the file \<^verbatim>\<open>self.data_file\<close>, which is absent, or the JSON text of a list of
  dictionaries, or the empty or cut-off text that is left when a write fails after the
  file was opened (\<^verbatim>\<open>open\<close> with mode \<^verbatim>\<open>'w'\<close> empties the file before
  \<^verbatim>\<open>json.dump\<close> writes). What the code takes from outside is an argument of the model:
  the string of \<^verbatim>\<open>uuid.uuid4()\<close>, the clock \<^verbatim>\<open>datetime.now()\<close> and how far writing the
  file gets.
\<close>

datatype file_state =
    No_file
  | Json_file "json_object list"
  | Broken_file

datatype write_outcome = Written | Open_failed | Dump_failed

record calendar_module =
  events :: "calendar_event list"
  data_file :: file_state

record env =
  uuid4 :: string
  clock :: datetime
  write_result :: write_outcome

text \<open>\<^verbatim>\<open>_load_events\<close>: without a file, and after any exception while reading, the
  list is empty.\<close>

fun from_dicts :: "json_object list \<Rightarrow> error + calendar_event list" where
  "from_dicts [] = Inr []"
| "from_dicts (d # ds) =
     (case from_dict d of
        Inl e \<Rightarrow> Inl e
      | Inr ev \<Rightarrow> (case from_dicts ds of Inl e \<Rightarrow> Inl e | Inr evs \<Rightarrow> Inr (ev # evs)))"

definition load_events :: "calendar_module \<Rightarrow> calendar_module" where
  "load_events s =
     (case data_file s of
        No_file \<Rightarrow> s\<lparr>events := []\<rparr>
      | Broken_file \<Rightarrow> s\<lparr>events := []\<rparr>
      | Json_file ds \<Rightarrow>
          (case from_dicts ds of
             Inl e \<Rightarrow> s\<lparr>events := []\<rparr>
           | Inr evs \<Rightarrow> s\<lparr>events := evs\<rparr>))"

text \<open>
  \<^verbatim>\<open>_save_events\<close>: the dictionaries of all events are built first, then the file is
  opened and written; any exception is logged and swallowed. An exception of
  \<^verbatim>\<open>to_dict\<close> or of \<^verbatim>\<open>open\<close> leaves the file as it was, one after the file was
  opened leaves it empty or cut off.
\<close>

fun to_dicts :: "calendar_event list \<Rightarrow> error + json_object list" where
  "to_dicts [] = Inr []"
| "to_dicts (e # es) =
     (case to_dict e of
        Inl x \<Rightarrow> Inl x
      | Inr d \<Rightarrow> (case to_dicts es of Inl x \<Rightarrow> Inl x | Inr ds \<Rightarrow> Inr (d # ds)))"

definition save_events :: "env \<Rightarrow> calendar_module \<Rightarrow> calendar_module" where
  "save_events io s =
     (case to_dicts (events s) of
        Inl x \<Rightarrow> s
      | Inr events_data \<Rightarrow>
          (case write_result io of
             Written \<Rightarrow> s\<lparr>data_file := Json_file events_data\<rparr>
           | Open_failed \<Rightarrow> s
           | Dump_failed \<Rightarrow> s\<lparr>data_file := Broken_file\<rparr>))"

definition generate_event_id :: "env \<Rightarrow> string" where
  "generate_event_id io = take 8 (uuid4 io)"

text \<open>\<^verbatim>\<open>create_event\<close>. \<^verbatim>\<open>attendees or []\<close> turns \<^verbatim>\<open>None\<close> into the empty list, and
  \<^verbatim>\<open>__post_init__\<close> sets \<^verbatim>\<open>created_at\<close> from the clock.\<close>

definition create_event ::
  "env \<Rightarrow> calendar_module \<Rightarrow> string \<Rightarrow> datetime \<Rightarrow> datetime \<Rightarrow> string \<Rightarrow> string
     \<Rightarrow> string list option \<Rightarrow> int \<Rightarrow> bool \<Rightarrow> string \<Rightarrow> string \<times> calendar_module" where
  "create_event io s ttl st en descr loc att rem allday recur =
     (let event_id = generate_event_id io;
          event = \<lparr>id' = event_id, title = ttl, description = descr, start_time = st,
                   end_time = en, location = loc,
                   attendees = (case att of None \<Rightarrow> [] | Some xs \<Rightarrow> xs),
                   reminder_minutes = rem, is_all_day = allday, recurrence = recur,
                   created_at = clock io, to_dict_hidden = False, fields_attr = None\<rparr>
      in (event_id, save_events io (s\<lparr>events := events s @ [event]\<rparr>)))"

fun get_event :: "calendar_event list \<Rightarrow> string \<Rightarrow> calendar_event option" where
  "get_event [] i = None"
| "get_event (e # es) i = (if id' e = i then Some e else get_event es i)"

text \<open>
  The keyword arguments of \<^verbatim>\<open>update_event\<close>, by the name of the keyword. The values are
  data (no classes, functions or objects shared with the caller).
  \<^item> One constructor for each field of the dataclass, with a value of the annotated type.
  \<^item> \<open>Kw_dunder_dict\<close> is \<^verbatim>\<open>__dict__\<close>: with \<open>Some d\<close> the value is a dictionary that holds
    the eleven fields (and possibly the two attributes above), written as the event
    \<open>d\<close> it makes of the object; with \<open>None\<close> it is not a dictionary. A dictionary that
    lacks a field is not covered.
  \<^item> \<open>Kw_dunder_class\<close> is \<^verbatim>\<open>__class__\<close> and \<open>Kw_dunder_weakref\<close> is \<^verbatim>\<open>__weakref__\<close>.
  \<^item> \<open>Kw_to_dict\<close> is \<^verbatim>\<open>to_dict\<close> and \<open>Kw_dataclass_fields\<close> is
    \<^verbatim>\<open>__dataclass_fields__\<close>.
  \<^item> \<open>Kw_other_attr\<close> is a keyword of any other name that \<^verbatim>\<open>hasattr\<close> finds on an
    event (\<^verbatim>\<open>from_dict\<close>, \<^verbatim>\<open>__eq__\<close>, \<^verbatim>\<open>__doc__\<close>, ...).
  \<^item> \<open>No_attr\<close> is a keyword of a name that \<^verbatim>\<open>hasattr\<close> does not find.
\<close>

datatype kwarg =
    Kw_id string
  | Kw_title string
  | Kw_description string
  | Kw_start_time datetime
  | Kw_end_time datetime
  | Kw_location string
  | Kw_attendees "string list"
  | Kw_reminder_minutes int
  | Kw_is_all_day bool
  | Kw_recurrence string
  | Kw_created_at datetime
  | Kw_dunder_dict "calendar_event option"
  | Kw_dunder_class
  | Kw_dunder_weakref
  | Kw_to_dict
  | Kw_dataclass_fields attr_value
  | Kw_other_attr
  | No_attr

fun hasattr :: "kwarg \<Rightarrow> bool" where
  "hasattr No_attr = False"
| "hasattr kw = True"

text \<open>
  \<^verbatim>\<open>setattr\<close> on an event. A field is assigned. \<^verbatim>\<open>__dict__\<close> replaces the dictionary
  of the instance, and with it every field, or raises \<^verbatim>\<open>TypeError\<close> for a value that
  is not a dictionary. \<^verbatim>\<open>__class__\<close> raises \<^verbatim>\<open>TypeError\<close> (the value is not a class)
  and \<^verbatim>\<open>__weakref__\<close> raises \<^verbatim>\<open>AttributeError\<close> (not writable). Every other name is
  stored in the dictionary of the instance, where it hides the attribute of the class;
  the module reads none of them again but the two of the record.
\<close>

fun setattr :: "calendar_event \<Rightarrow> kwarg \<Rightarrow> error + calendar_event" where
  "setattr e (Kw_id v) = Inr (e\<lparr>id' := v\<rparr>)"
| "setattr e (Kw_title v) = Inr (e\<lparr>title := v\<rparr>)"
| "setattr e (Kw_description v) = Inr (e\<lparr>description := v\<rparr>)"
| "setattr e (Kw_start_time v) = Inr (e\<lparr>start_time := v\<rparr>)"
| "setattr e (Kw_end_time v) = Inr (e\<lparr>end_time := v\<rparr>)"
| "setattr e (Kw_location v) = Inr (e\<lparr>location := v\<rparr>)"
| "setattr e (Kw_attendees v) = Inr (e\<lparr>attendees := v\<rparr>)"
| "setattr e (Kw_reminder_minutes v) = Inr (e\<lparr>reminder_minutes := v\<rparr>)"
| "setattr e (Kw_is_all_day v) = Inr (e\<lparr>is_all_day := v\<rparr>)"
| "setattr e (Kw_recurrence v) = Inr (e\<lparr>recurrence := v\<rparr>)"
| "setattr e (Kw_created_at v) = Inr (e\<lparr>created_at := v\<rparr>)"
| "setattr e (Kw_dunder_dict (Some d)) = Inr d"
| "setattr e (Kw_dunder_dict None) = Inl TypeError"
| "setattr e Kw_dunder_class = Inl TypeError"
| "setattr e Kw_dunder_weakref = Inl AttributeError"
| "setattr e Kw_to_dict = Inr (e\<lparr>to_dict_hidden := True\<rparr>)"
| "setattr e (Kw_dataclass_fields v) = Inr (e\<lparr>fields_attr := Some v\<rparr>)"
| "setattr e Kw_other_attr = Inr e"
| "setattr e No_attr = Inr e"

text \<open>
  The loop of \<^verbatim>\<open>update_event\<close> over the keywords, in the order of the call. It changes
  the object in place, so when an assignment raises, the earlier ones have been made:
  the result is the event as the loop leaves it and the exception, if any.
\<close>

fun update_loop :: "calendar_event \<Rightarrow> kwarg list \<Rightarrow> calendar_event \<times> error option" where
  "update_loop e [] = (e, None)"
| "update_loop e (kw # kws) =
     (if hasattr kw
      then (case setattr e kw of
              Inl x \<Rightarrow> (e, Some x)
            | Inr e' \<Rightarrow> update_loop e' kws)
      else update_loop e kws)"

text \<open>The object that \<^verbatim>\<open>get_event\<close> returns is the first one in the list with the
  identifier.\<close>

fun update_first ::
  "string \<Rightarrow> (calendar_event \<Rightarrow> calendar_event) \<Rightarrow> calendar_event list \<Rightarrow> calendar_event list" where
  "update_first i f [] = []"
| "update_first i f (e # es) = (if id' e = i then f e # es else e # update_first i f es)"

text \<open>
  \<^verbatim>\<open>update_event\<close> returns a truth value, or an exception of the loop leaves it, before
  \<^verbatim>\<open>_save_events\<close> is called.
\<close>

definition update_event ::
  "env \<Rightarrow> calendar_module \<Rightarrow> string \<Rightarrow> kwarg list \<Rightarrow> (error + bool) \<times> calendar_module" where
  "update_event io s event_id kwargs =
     (case get_event (events s) event_id of
        None \<Rightarrow> (Inr False, s)
      | Some event \<Rightarrow>
          (case update_loop event kwargs of
             (event', Some x) \<Rightarrow>
               (Inl x, s\<lparr>events := update_first event_id (\<lambda>e. event') (events s)\<rparr>)
           | (event', None) \<Rightarrow>
               (Inr True,
                save_events io (s\<lparr>events := update_first event_id (\<lambda>e. event') (events s)\<rparr>))))"

fun pop_first :: "string \<Rightarrow> calendar_event list \<Rightarrow> calendar_event list" where
  "pop_first i [] = []"
| "pop_first i (e # es) = (if id' e = i then es else e # pop_first i es)"

definition delete_event :: "env \<Rightarrow> calendar_module \<Rightarrow> string \<Rightarrow> bool \<times> calendar_module" where
  "delete_event io s event_id =
     (case get_event (events s) event_id of
        None \<Rightarrow> (False, s)
      | Some event \<Rightarrow> (True, save_events io (s\<lparr>events := pop_first event_id (events s)\<rparr>)))"

section \<open>Queries\<close>

text \<open>\<^verbatim>\<open>list.sort(key=lambda e: e.start_time)\<close> is a stable sort, as \<^const>\<open>sort_key\<close> is.\<close>

definition get_events_for_date :: "calendar_event list \<Rightarrow> date \<Rightarrow> calendar_event list" where
  "get_events_for_date evs target_date =
     sort_key start_time (filter (\<lambda>e. date_of (start_time e) = target_date) evs)"

definition get_events_for_month :: "calendar_event list \<Rightarrow> int \<Rightarrow> int \<Rightarrow> calendar_event list" where
  "get_events_for_month evs y m =
     sort_key start_time (filter (\<lambda>e. dt_year (start_time e) = y \<and> dt_month (start_time e) = m) evs)"

text \<open>\<^verbatim>\<open>get_events_needing_reminders\<close>. In the chained comparison
  \<^verbatim>\<open>reminder_time <= now <= reminder_time + timedelta(minutes=1)\<close> the sum is computed
  only when the first comparison holds.\<close>

fun get_events_needing_reminders :: "datetime \<Rightarrow> calendar_event list \<Rightarrow> error + calendar_event list" where
  "get_events_needing_reminders now [] = Inr []"
| "get_events_needing_reminders now (event # evs) =
     (case dt_add (start_time event) (- minutes (reminder_minutes event)) of
        Inl e \<Rightarrow> Inl e
      | Inr reminder_time \<Rightarrow>
          if reminder_time \<le> now then
            (case dt_add reminder_time (minutes 1) of
               Inl e \<Rightarrow> Inl e
             | Inr upper \<Rightarrow>
                 (case get_events_needing_reminders now evs of
                    Inl e \<Rightarrow> Inl e
                  | Inr rest \<Rightarrow> Inr (if now \<le> upper then event # rest else rest)))
          else get_events_needing_reminders now evs)"

text \<open>\<^verbatim>\<open>str.lower\<close> on ASCII letters and the substring test \<^verbatim>\<open>q in s\<close>.\<close>

definition lower_char :: "char \<Rightarrow> char" where
  "lower_char c =
     (let n = (of_char c :: nat) in if 65 \<le> n \<and> n \<le> 90 then char_of (n + 32) else c)"

definition lower :: "string \<Rightarrow> string" where
  "lower s = map lower_char s"

definition search_events :: "calendar_event list \<Rightarrow> string \<Rightarrow> calendar_event list" where
  "search_events evs query =
     (let q = lower query
      in sort_key start_time
           (filter (\<lambda>e. sublist q (lower (title e)) \<or> sublist q (lower (description e))
                         \<or> sublist q (lower (location e))) evs))"

section \<open>Conflicts and free slots\<close>

text \<open>\<^verbatim>\<open>get_event_conflicts\<close>. The test \<^verbatim>\<open>exclude_event_id and ...\<close> is the truth value
  of an optional string: \<^verbatim>\<open>None\<close> and the empty string are both false.\<close>

definition truthy :: "string option \<Rightarrow> bool" where
  "truthy x = (case x of None \<Rightarrow> False | Some v \<Rightarrow> v \<noteq> [])"

fun get_event_conflicts ::
  "calendar_event list \<Rightarrow> datetime \<Rightarrow> datetime \<Rightarrow> string option \<Rightarrow> calendar_event list" where
  "get_event_conflicts [] st en exclude_event_id = []"
| "get_event_conflicts (event # evs) st en exclude_event_id =
     (if truthy exclude_event_id \<and> Some (id' event) = exclude_event_id
      then get_event_conflicts evs st en exclude_event_id
      else if st < end_time event \<and> en > start_time event
      then event # get_event_conflicts evs st en exclude_event_id
      else get_event_conflicts evs st en exclude_event_id)"

text \<open>\<^verbatim>\<open>get_free_time_slots\<close>: the loop over the day's events carries the cursor
  \<^verbatim>\<open>current_time\<close> and the list \<^verbatim>\<open>free_slots\<close>.\<close>

fun free_loop ::
  "int \<Rightarrow> datetime \<Rightarrow> (datetime \<times> datetime) list \<Rightarrow> calendar_event list
     \<Rightarrow> datetime \<times> (datetime \<times> datetime) list" where
  "free_loop duration_minutes current_time free_slots [] = (current_time, free_slots)"
| "free_loop duration_minutes current_time free_slots (event # evs) =
     (let free_slots =
            (if start_time event > current_time
                \<and> td_seconds (start_time event - current_time) div 60 \<ge> duration_minutes
             then free_slots @ [(current_time, start_time event)] else free_slots)
      in free_loop duration_minutes (max current_time (end_time event)) free_slots evs)"

definition get_free_time_slots ::
  "calendar_event list \<Rightarrow> date \<Rightarrow> int \<Rightarrow> (datetime \<times> datetime) list" where
  "get_free_time_slots evs target_date duration_minutes =
     (let day_events = sort_key start_time (get_events_for_date evs target_date);
          work_start = combine target_date 9 0;
          work_end = combine target_date 18 0;
          (current_time, free_slots) = free_loop duration_minutes work_start [] day_events
      in if current_time < work_end
            \<and> td_seconds (work_end - current_time) div 60 \<ge> duration_minutes
         then free_slots @ [(current_time, work_end)] else free_slots)"

subsection \<open>The free-slot walk in the words of the specification\<close>

text \<open>
  A second definition, written from section 4.4 of the specification and not from the
  code, to compare \<^const>\<open>get_free_time_slots\<close> with: take the day's events sorted by start;
  walk a cursor from the start of work; for each event, if the gap before it is at least
  the minimum duration, emit it, then advance the cursor to the maximum of the cursor and
  the event's end; after the last event, emit a final gap up to the end of work if it is
  long enough. A gap from \<open>a\<close> to \<open>b\<close> is measured by its true length \<open>b - a\<close>.
\<close>

definition long_enough :: "int \<Rightarrow> datetime \<Rightarrow> datetime \<Rightarrow> bool" where
  "long_enough min_duration_minutes a b = (a < b \<and> b - a \<ge> minutes min_duration_minutes)"

fun spec_walk ::
  "int \<Rightarrow> datetime \<Rightarrow> calendar_event list \<Rightarrow> datetime \<times> (datetime \<times> datetime) list" where
  "spec_walk m cursor [] = (cursor, [])"
| "spec_walk m cursor (e # es) =
     (let (c, slots) = spec_walk m (max cursor (end_time e)) es
      in (c, (if long_enough m cursor (start_time e) then [(cursor, start_time e)] else []) @ slots))"

definition free_slots_spec ::
  "calendar_event list \<Rightarrow> date \<Rightarrow> int \<Rightarrow> (datetime \<times> datetime) list" where
  "free_slots_spec evs d m =
     (let day = sort_key start_time (filter (\<lambda>e. date_of (start_time e) = d) evs);
          (c, slots) = spec_walk m (combine d 9 0) day
      in slots @ (if long_enough m c (combine d 18 0) then [(c, combine d 18 0)] else []))"

section \<open>The calendar matrix\<close>

text \<open>
  \<^verbatim>\<open>get_calendar_matrix\<close> returns a dictionary; its keys \<^verbatim>\<open>year\<close> and \<^verbatim>\<open>month\<close> are the
  fields \<open>matrix_year\<close> and \<open>matrix_month\<close> here, and the keys \<^verbatim>\<open>day\<close>, \<^verbatim>\<open>date\<close> and
  \<^verbatim>\<open>events\<close> of a cell are \<open>cell_day\<close>, \<open>cell_date\<close> and \<open>cell_events\<close>.
\<close>

record cell =
  cell_day :: int
  cell_date :: date
  is_current_month :: bool
  is_today :: bool
  cell_events :: "calendar_event list"
  has_events :: bool

record matrix_result =
  calendar_matrix :: "cell list list"
  matrix_year :: int
  matrix_month :: int
  month_name :: string
  events_count :: nat
  total_days_with_events :: nat

text \<open>\<^verbatim>\<open>calendar.month_name\<close>, indexed by the month.\<close>

definition MONTH_NAME :: "string list" where
  "MONTH_NAME = ['''', ''January'', ''February'', ''March'', ''April'', ''May'', ''June'', ''July'',
     ''August'', ''September'', ''October'', ''November'', ''December'']"

text \<open>The dictionary \<^verbatim>\<open>events_by_date\<close>, with its keys in the order of insertion: a new
  key gets the empty list, then the event is appended to the list of its key.\<close>

fun append_at ::
  "date \<Rightarrow> calendar_event \<Rightarrow> (date \<times> calendar_event list) list \<Rightarrow> (date \<times> calendar_event list) list" where
  "append_at k e [] = [(k, [e])]"
| "append_at k e ((k', es) # rest) =
     (if k' = k then (k', es @ [e]) # rest else (k', es) # append_at k e rest)"

definition events_by_date :: "calendar_event list \<Rightarrow> (date \<times> calendar_event list) list" where
  "events_by_date all_events = foldl (\<lambda>m e. append_at (date_of (start_time e)) e m) [] all_events"

definition mk_cell ::
  "int \<Rightarrow> int \<Rightarrow> date \<Rightarrow> (date \<times> calendar_event list) list \<Rightarrow> date \<Rightarrow> cell" where
  "mk_cell y m today by_date current_date =
     \<lparr>cell_day = date_day current_date,
      cell_date = current_date,
      is_current_month = (date_month current_date = m \<and> date_year current_date = y),
      is_today = (current_date = today),
      cell_events = (case map_of by_date current_date of None \<Rightarrow> [] | Some es \<Rightarrow> es),
      has_events = (map_of by_date current_date \<noteq> None)\<rparr>"

text \<open>The inner loop \<^verbatim>\<open>for day_num in range(7)\<close>, with the days still to do, and the
  outer loop \<^verbatim>\<open>for week_num in range(6)\<close>. \<^verbatim>\<open>current_date += timedelta(days=1)\<close> runs
  after every cell, the last one included.\<close>

fun build_days ::
  "(date \<Rightarrow> cell) \<Rightarrow> nat \<Rightarrow> date \<Rightarrow> cell list \<Rightarrow> error + (cell list \<times> date)" where
  "build_days f 0 current_date week_data = Inr (week_data, current_date)"
| "build_days f (Suc n) current_date week_data =
     (case date_add_days current_date 1 of
        Inl e \<Rightarrow> Inl e
      | Inr next_date \<Rightarrow> build_days f n next_date (week_data @ [f current_date]))"

fun build_weeks ::
  "(date \<Rightarrow> cell) \<Rightarrow> nat \<Rightarrow> date \<Rightarrow> cell list list \<Rightarrow> error + cell list list" where
  "build_weeks f 0 current_date calendar_data = Inr calendar_data"
| "build_weeks f (Suc n) current_date calendar_data =
     (case build_days f 7 current_date [] of
        Inl e \<Rightarrow> Inl e
      | Inr (week_data, next_date) \<Rightarrow> build_weeks f n next_date (calendar_data @ [week_data]))"

text \<open>The last day of the month: \<^verbatim>\<open>date(year + 1, 1, 1) - timedelta(days=1)\<close> for
  December, \<^verbatim>\<open>date(year, month + 1, 1) - timedelta(days=1)\<close> otherwise.\<close>

definition last_day_of :: "int \<Rightarrow> int \<Rightarrow> error + date" where
  "last_day_of y m =
     (if m = 12
      then (case mk_date (y + 1) 1 1 of Inl e \<Rightarrow> Inl e | Inr d \<Rightarrow> date_add_days d (- 1))
      else (case mk_date y (m + 1) 1 of Inl e \<Rightarrow> Inl e | Inr d \<Rightarrow> date_add_days d (- 1)))"

text \<open>\<^verbatim>\<open>get_calendar_matrix\<close>. The clock is read twice: \<open>now\<close> gives the default year and
  month, \<open>now_today\<close> gives \<^verbatim>\<open>today\<close>. The last day of the month is computed and not used,
  but its computation can raise.\<close>

definition get_calendar_matrix ::
  "datetime \<Rightarrow> datetime \<Rightarrow> calendar_event list \<Rightarrow> int option \<Rightarrow> int option
     \<Rightarrow> error + matrix_result" where
  "get_calendar_matrix now now_today evs year_arg month_arg =
     (let y = (case year_arg of None \<Rightarrow> dt_year now | Some v \<Rightarrow> v);
          m = (case month_arg of None \<Rightarrow> dt_month now | Some v \<Rightarrow> v)
      in case mk_date y m 1 of
           Inl e \<Rightarrow> Inl e
         | Inr first_day \<Rightarrow>
             (case last_day_of y m of
                Inl e \<Rightarrow> Inl e
              | Inr last_day \<Rightarrow>
                  (let first_day_weekday = (weekday first_day + 1) mod 7
                   in case date_add_days first_day (- first_day_weekday) of
                        Inl e \<Rightarrow> Inl e
                      | Inr start_date \<Rightarrow>
                          (let current_events = get_events_for_month evs y m;
                               all_events = current_events @
                                 (if date_month start_date \<noteq> m \<or> date_year start_date \<noteq> y
                                  then get_events_for_month evs (date_year start_date)
                                         (date_month start_date)
                                  else []);
                               by_date = events_by_date all_events;
                               today = date_of now_today
                           in case build_weeks (mk_cell y m today by_date) 6 start_date [] of
                                Inl e \<Rightarrow> Inl e
                              | Inr calendar_data \<Rightarrow>
                                  Inr \<lparr>calendar_matrix = calendar_data,
                                       matrix_year = y,
                                       matrix_month = m,
                                       month_name = MONTH_NAME ! nat m,
                                       events_count = length current_events,
                                       total_days_with_events =
                                         length (filter (\<lambda>d. date_year d = y \<and> date_month d = m)
                                                   (map fst by_date))\<rparr>))))"

section \<open>Example data\<close>

text \<open>The day 2024-03-04 (ordinal 738949), two events A = [10:00, 11:00) and
  B = [11:00, 12:00) on it, an environment whose next UUID starts with the identifier of A,
  and small module states; \<open>module_A\<close> holds A, in memory and saved.\<close>

definition example_day :: date where
  "example_day = 738949"

definition ev_A :: calendar_event where
  "ev_A = \<lparr>id' = ''aaaaaaaa'', title = ''A'', description = [], start_time = combine example_day 10 0,
           end_time = combine example_day 11 0, location = [], attendees = [], reminder_minutes = 15,
           is_all_day = False, recurrence = ''none'', created_at = combine example_day 8 0,
           to_dict_hidden = False, fields_attr = None\<rparr>"

definition ev_B :: calendar_event where
  "ev_B = \<lparr>id' = ''bbbbbbbb'', title = ''B'', description = [], start_time = combine example_day 11 0,
           end_time = combine example_day 12 0, location = [], attendees = [], reminder_minutes = 15,
           is_all_day = False, recurrence = ''none'', created_at = combine example_day 8 0,
           to_dict_hidden = False, fields_attr = None\<rparr>"

definition env_ok :: env where
  "env_ok = \<lparr>uuid4 = ''aaaaaaaa-0000-4000-8000-000000000000'', clock = combine example_day 8 0,
             write_result = Written\<rparr>"

definition env_fail :: env where
  "env_fail = env_ok\<lparr>write_result := Dump_failed\<rparr>"

definition empty_module :: calendar_module where
  "empty_module = \<lparr>events = [], data_file = No_file\<rparr>"

definition module_A :: calendar_module where
  "module_A = save_events env_ok \<lparr>events = [ev_A], data_file = No_file\<rparr>"

section \<open>Properties of the store\<close>

lemmas example_defs = example_day_def ev_A_def env_ok_def env_fail_def empty_module_def module_A_def
  combine_def us_per_day_def us_per_hour_def us_per_minute_def

lemma events_save_events: "events (save_events io s) = events s"
  by (simp add: save_events_def split: sum.splits write_outcome.splits)

lemma events_create_event:
  "events (snd (create_event io s ttl st en descr loc att rem allday recur)) =
     events s @ [\<lparr>id' = take 8 (uuid4 io), title = ttl, description = descr, start_time = st,
                   end_time = en, location = loc,
                   attendees = (case att of None \<Rightarrow> [] | Some xs \<Rightarrow> xs),
                   reminder_minutes = rem, is_all_day = allday, recurrence = recur,
                   created_at = clock io, to_dict_hidden = False, fields_attr = None\<rparr>]"
  by (simp add: create_event_def generate_event_id_def events_save_events Let_def)

lemma fst_create_event:
  "fst (create_event io s ttl st en descr loc att rem allday recur) = take 8 (uuid4 io)"
  by (simp add: create_event_def generate_event_id_def Let_def)

lemma get_event_Some:
  assumes "get_event es i = Some ev"
  shows "\<exists>n < length es. es ! n = ev \<and> id' ev = i \<and> (\<forall>k < n. id' (es ! k) \<noteq> i) \<and>
     (\<forall>f. update_first i f es = es[n := f ev]) \<and> pop_first i es = take n es @ drop (Suc n) es"
  using assms
proof (induction es)
  case Nil then show ?case by simp
next
  case (Cons e es)
  show ?case
  proof (cases "id' e = i")
    case True
    with Cons.prems have "e = ev" by simp
    with True show ?thesis by (intro exI[of _ 0]) simp
  next
    case False
    with Cons.prems have "get_event es i = Some ev" by simp
    from Cons.IH[OF this] obtain n where n: "n < length es" "es ! n = ev" "id' ev = i"
      "\<forall>k < n. id' (es ! k) \<noteq> i" "\<forall>f. update_first i f es = es[n := f ev]"
      "pop_first i es = take n es @ drop (Suc n) es" by blast
    have "\<forall>k < Suc n. id' ((e # es) ! k) \<noteq> i"
      using False n(4) by (auto simp: less_Suc_eq_0_disj)
    with n False show ?thesis by (intro exI[of _ "Suc n"]) simp
  qed
qed

lemma length_pop_first:
  assumes "get_event es i = Some ev"
  shows "length (pop_first i es) < length es"
proof -
  from get_event_Some[OF assms] obtain n where "n < length es"
    "pop_first i es = take n es @ drop (Suc n) es" by blast
  then show ?thesis by simp
qed

text \<open>The loop raises exactly when one of the three keywords is among the arguments
  whose assignment raises.\<close>

lemma update_loop_returns:
  "snd (update_loop e kw) = None \<longleftrightarrow>
     Kw_dunder_class \<notin> set kw \<and> Kw_dunder_weakref \<notin> set kw \<and> Kw_dunder_dict None \<notin> set kw"
proof (induction e kw rule: update_loop.induct)
  case (1 e) show ?case by simp
next
  case (2 e a kws)
  show ?case
  proof (cases "(e, a)" rule: setattr.cases)
    case (19 e')
    with 2 show ?thesis by simp
  qed (use 2 in auto)
qed

lemma update_loop_error:
  "snd (update_loop e kw) = Some x \<Longrightarrow> x = TypeError \<or> x = AttributeError"
proof (induction e kw rule: update_loop.induct)
  case (1 e) then show ?case by simp
next
  case (2 e a kws)
  show ?case
  proof (cases "(e, a)" rule: setattr.cases)
    case (19 e')
    with 2 show ?thesis by simp
  qed (use 2 in auto)
qed

lemma events_update_event:
  "events (snd (update_event io s i kw)) =
     (case get_event (events s) i of None \<Rightarrow> events s
      | Some ev \<Rightarrow> update_first i (\<lambda>e. fst (update_loop ev kw)) (events s))"
  by (simp add: update_event_def events_save_events split: option.splits prod.splits)

lemma fst_update_event:
  "fst (update_event io s i kw) =
     (case get_event (events s) i of None \<Rightarrow> Inr False
      | Some ev \<Rightarrow> (case snd (update_loop ev kw) of None \<Rightarrow> Inr True | Some x \<Rightarrow> Inl x))"
  by (simp add: update_event_def split: option.splits prod.splits)

lemma events_delete_event:
  "events (snd (delete_event io s i)) =
     (case get_event (events s) i of None \<Rightarrow> events s | Some ev \<Rightarrow> pop_first i (events s))"
  by (simp add: delete_event_def events_save_events split: option.splits)

lemma fst_delete_event: "fst (delete_event io s i) = (get_event (events s) i \<noteq> None)"
  by (simp add: delete_event_def split: option.splits)

text \<open>A field keeps its value in the loop when neither its keyword nor a dictionary for
  \<^verbatim>\<open>__dict__\<close> is among the arguments.\<close>

lemma update_loop_frame:
  "(\<forall>v. Kw_id v \<notin> set kw) \<and> (\<forall>d. Kw_dunder_dict (Some d) \<notin> set kw)
     \<longrightarrow> id' (fst (update_loop e kw)) = id' e"
  "(\<forall>v. Kw_title v \<notin> set kw) \<and> (\<forall>d. Kw_dunder_dict (Some d) \<notin> set kw)
     \<longrightarrow> title (fst (update_loop e kw)) = title e"
  "(\<forall>v. Kw_description v \<notin> set kw) \<and> (\<forall>d. Kw_dunder_dict (Some d) \<notin> set kw)
     \<longrightarrow> description (fst (update_loop e kw)) = description e"
  "(\<forall>v. Kw_start_time v \<notin> set kw) \<and> (\<forall>d. Kw_dunder_dict (Some d) \<notin> set kw)
     \<longrightarrow> start_time (fst (update_loop e kw)) = start_time e"
  "(\<forall>v. Kw_end_time v \<notin> set kw) \<and> (\<forall>d. Kw_dunder_dict (Some d) \<notin> set kw)
     \<longrightarrow> end_time (fst (update_loop e kw)) = end_time e"
  "(\<forall>v. Kw_location v \<notin> set kw) \<and> (\<forall>d. Kw_dunder_dict (Some d) \<notin> set kw)
     \<longrightarrow> location (fst (update_loop e kw)) = location e"
  "(\<forall>v. Kw_attendees v \<notin> set kw) \<and> (\<forall>d. Kw_dunder_dict (Some d) \<notin> set kw)
     \<longrightarrow> attendees (fst (update_loop e kw)) = attendees e"
  "(\<forall>v. Kw_reminder_minutes v \<notin> set kw) \<and> (\<forall>d. Kw_dunder_dict (Some d) \<notin> set kw)
     \<longrightarrow> reminder_minutes (fst (update_loop e kw)) = reminder_minutes e"
  "(\<forall>v. Kw_is_all_day v \<notin> set kw) \<and> (\<forall>d. Kw_dunder_dict (Some d) \<notin> set kw)
     \<longrightarrow> is_all_day (fst (update_loop e kw)) = is_all_day e"
  "(\<forall>v. Kw_recurrence v \<notin> set kw) \<and> (\<forall>d. Kw_dunder_dict (Some d) \<notin> set kw)
     \<longrightarrow> recurrence (fst (update_loop e kw)) = recurrence e"
  "(\<forall>v. Kw_created_at v \<notin> set kw) \<and> (\<forall>d. Kw_dunder_dict (Some d) \<notin> set kw)
     \<longrightarrow> created_at (fst (update_loop e kw)) = created_at e"
proof (induction e kw rule: update_loop.induct)
  case (1 e)
  { case 1 show ?case by simp next case 2 show ?case by simp next case 3 show ?case by simp
    next case 4 show ?case by simp next case 5 show ?case by simp next case 6 show ?case by simp
    next case 7 show ?case by simp next case 8 show ?case by simp next case 9 show ?case by simp
    next case 10 show ?case by simp next case 11 show ?case by simp }
next
  case (2 e a kws)
  note IH = this
  { case 1 show ?case using IH(1,12) by (cases "(e, a)" rule: setattr.cases) auto
    next case 2 show ?case using IH(2,13) by (cases "(e, a)" rule: setattr.cases) auto
    next case 3 show ?case using IH(3,14) by (cases "(e, a)" rule: setattr.cases) auto
    next case 4 show ?case using IH(4,15) by (cases "(e, a)" rule: setattr.cases) auto
    next case 5 show ?case using IH(5,16) by (cases "(e, a)" rule: setattr.cases) auto
    next case 6 show ?case using IH(6,17) by (cases "(e, a)" rule: setattr.cases) auto
    next case 7 show ?case using IH(7,18) by (cases "(e, a)" rule: setattr.cases) auto
    next case 8 show ?case using IH(8,19) by (cases "(e, a)" rule: setattr.cases) auto
    next case 9 show ?case using IH(9,20) by (cases "(e, a)" rule: setattr.cases) auto
    next case 10 show ?case using IH(10,21) by (cases "(e, a)" rule: setattr.cases) auto
    next case 11 show ?case using IH(11,22) by (cases "(e, a)" rule: setattr.cases) auto }
qed

lemma invariant_list_update:
  assumes "n < length es"
  shows "(\<forall>e\<in>set (es[n := ev']). start_time e \<le> end_time e) \<longleftrightarrow>
           start_time ev' \<le> end_time ev'
           \<and> (\<forall>k<length es. k \<noteq> n \<longrightarrow> start_time (es ! k) \<le> end_time (es ! k))"
proof
  assume a: "\<forall>e\<in>set (es[n := ev']). start_time e \<le> end_time e"
  have "ev' \<in> set (es[n := ev'])" using assms by (simp add: set_update_memI)
  with a have 1: "start_time ev' \<le> end_time ev'" by blast
  have "start_time (es ! k) \<le> end_time (es ! k)" if "k < length es" "k \<noteq> n" for k
  proof -
    have "es[n := ev'] ! k \<in> set (es[n := ev'])" using that(1) by simp
    with a that(2) show ?thesis by auto
  qed
  with 1 show "start_time ev' \<le> end_time ev'
           \<and> (\<forall>k<length es. k \<noteq> n \<longrightarrow> start_time (es ! k) \<le> end_time (es ! k))" by blast
next
  assume b: "start_time ev' \<le> end_time ev'
           \<and> (\<forall>k<length es. k \<noteq> n \<longrightarrow> start_time (es ! k) \<le> end_time (es ! k))"
  show "\<forall>e\<in>set (es[n := ev']). start_time e \<le> end_time e"
  proof
    fix e assume "e \<in> set (es[n := ev'])"
    then obtain k where k: "k < length es" "e = es[n := ev'] ! k"
      by (auto simp: in_set_conv_nth)
    with b show "start_time e \<le> end_time e" by (cases "k = n") auto
  qed
qed

subsection \<open>C1: validation of create and update\<close>

text \<open>
  Claim C1 says that \<^verbatim>\<open>create\<close> with an empty title or with
  \<^verbatim>\<open>start_time > end_time\<close>, and an \<^verbatim>\<open>update\<close> whose merged fields are inverted,
  fail with a validation error and leave the store unchanged. The code checks nothing:
  \<^verbatim>\<open>create_event\<close> with an empty title and an inverted interval stores the event and
  returns its identifier.
\<close>

theorem create_event_no_validation_counterexample:
  "create_event env_ok empty_module [] (combine example_day 11 0) (combine example_day 10 0)
                  [] [] None 15 False ''none'' =
     (''aaaaaaaa'',
      save_events env_ok
        \<lparr>events = [\<lparr>id' = ''aaaaaaaa'', title = [], description = [],
                  start_time = combine example_day 11 0, end_time = combine example_day 10 0,
                  location = [], attendees = [], reminder_minutes = 15,
                  is_all_day = False, recurrence = ''none'', created_at = combine example_day 8 0,
                  to_dict_hidden = False, fields_attr = None\<rparr>],
         data_file = No_file\<rparr>)
   \<and> events (snd (create_event env_ok empty_module [] (combine example_day 11 0)
                    (combine example_day 10 0) [] [] None 15 False ''none'')) \<noteq> events empty_module
   \<and> combine example_day 11 0 > combine example_day 10 0"
  by (simp add: create_event_def generate_event_id_def events_save_events env_ok_def
      empty_module_def combine_def example_day_def us_per_day_def us_per_hour_def
      us_per_minute_def Let_def)

text \<open>
  C1 as amended: \<^verbatim>\<open>create_event\<close> never fails; for every title and every start and
  end it returns the new identifier and appends exactly one event carrying the given
  values, and afterwards every stored event satisfies \<open>start_time \<le> end_time\<close> exactly
  when the stored events did before and the new record does. \<^verbatim>\<open>update_event\<close> of a
  known identifier, with no keyword whose assignment raises, returns true and puts the
  merged record in the place of the event, whatever its interval; afterwards every
  stored event satisfies \<open>start_time \<le> end_time\<close> exactly when the merged record does and
  every other stored event did before.
\<close>

theorem create_update_no_validation:
  "fst (create_event io s ttl st en descr loc att rem allday recur) = take 8 (uuid4 io)
   \<and> events (snd (create_event io s ttl st en descr loc att rem allday recur)) =
       events s @ [\<lparr>id' = take 8 (uuid4 io), title = ttl, description = descr, start_time = st,
                     end_time = en, location = loc,
                     attendees = (case att of None \<Rightarrow> [] | Some xs \<Rightarrow> xs),
                     reminder_minutes = rem, is_all_day = allday, recurrence = recur,
                     created_at = clock io, to_dict_hidden = False, fields_attr = None\<rparr>]
   \<and> ((\<forall>e\<in>set (events (snd (create_event io s ttl st en descr loc att rem allday recur))).
          start_time e \<le> end_time e)
        \<longleftrightarrow> (\<forall>e\<in>set (events s). start_time e \<le> end_time e) \<and> st \<le> en)
   \<and> (\<forall>ev. get_event (events s) i = Some ev
          \<and> Kw_dunder_class \<notin> set kw \<and> Kw_dunder_weakref \<notin> set kw \<and> Kw_dunder_dict None \<notin> set kw
        \<longrightarrow> (\<exists>n<length (events s). events s ! n = ev
              \<and> fst (update_event io s i kw) = Inr True
              \<and> events (snd (update_event io s i kw)) = (events s)[n := fst (update_loop ev kw)]
              \<and> ((\<forall>e\<in>set (events (snd (update_event io s i kw))). start_time e \<le> end_time e)
                   \<longleftrightarrow> start_time (fst (update_loop ev kw)) \<le> end_time (fst (update_loop ev kw))
                       \<and> (\<forall>k<length (events s). k \<noteq> n
                             \<longrightarrow> start_time (events s ! k) \<le> end_time (events s ! k)))))"
proof (intro conjI allI impI)
  show "fst (create_event io s ttl st en descr loc att rem allday recur) = take 8 (uuid4 io)"
    by (rule fst_create_event)
  show "events (snd (create_event io s ttl st en descr loc att rem allday recur)) =
       events s @ [\<lparr>id' = take 8 (uuid4 io), title = ttl, description = descr, start_time = st,
                     end_time = en, location = loc,
                     attendees = (case att of None \<Rightarrow> [] | Some xs \<Rightarrow> xs),
                     reminder_minutes = rem, is_all_day = allday, recurrence = recur,
                     created_at = clock io, to_dict_hidden = False, fields_attr = None\<rparr>]"
    by (rule events_create_event)
  show "(\<forall>e\<in>set (events (snd (create_event io s ttl st en descr loc att rem allday recur))).
          start_time e \<le> end_time e)
        \<longleftrightarrow> (\<forall>e\<in>set (events s). start_time e \<le> end_time e) \<and> st \<le> en"
    by (auto simp add: events_create_event)
next
  fix ev
  assume a: "get_event (events s) i = Some ev
          \<and> Kw_dunder_class \<notin> set kw \<and> Kw_dunder_weakref \<notin> set kw \<and> Kw_dunder_dict None \<notin> set kw"
  define ev' where "ev' = fst (update_loop ev kw)"
  from a get_event_Some[of "events s" i ev] obtain n where
    n: "n < length (events s)" "events s ! n = ev"
       "\<forall>f. update_first i f (events s) = (events s)[n := f ev]"
    by blast
  have r: "snd (update_loop ev kw) = None" using a by (simp add: update_loop_returns)
  have t: "fst (update_event io s i kw) = Inr True" using a r by (simp add: fst_update_event)
  have u: "events (snd (update_event io s i kw)) = (events s)[n := ev']"
    using a n(3) by (simp add: events_update_event ev'_def)
  have "(\<forall>e\<in>set ((events s)[n := ev']). start_time e \<le> end_time e)
          \<longleftrightarrow> start_time ev' \<le> end_time ev'
              \<and> (\<forall>k<length (events s). k \<noteq> n \<longrightarrow> start_time (events s ! k) \<le> end_time (events s ! k))"
    by (rule invariant_list_update[OF n(1)])
  with n(1,2) t u
  show "\<exists>n<length (events s). events s ! n = ev
              \<and> fst (update_event io s i kw) = Inr True
              \<and> events (snd (update_event io s i kw)) = (events s)[n := fst (update_loop ev kw)]
              \<and> ((\<forall>e\<in>set (events (snd (update_event io s i kw))). start_time e \<le> end_time e)
                   \<longleftrightarrow> start_time (fst (update_loop ev kw)) \<le> end_time (fst (update_loop ev kw))
                       \<and> (\<forall>k<length (events s). k \<noteq> n
                             \<longrightarrow> start_time (events s ! k) \<le> end_time (events s ! k)))"
    unfolding ev'_def by (intro exI[of _ n]) simp
qed

theorem create_update_no_validation_witness:
  "get_event (events module_A) ''aaaaaaaa'' = Some ev_A
   \<and> update_event env_ok module_A ''aaaaaaaa'' [Kw_end_time 0]
       = (Inr True, save_events env_ok \<lparr>events = [ev_A\<lparr>end_time := 0\<rparr>], data_file = No_file\<rparr>)
   \<and> \<not> start_time (ev_A\<lparr>end_time := 0\<rparr>) \<le> end_time (ev_A\<lparr>end_time := 0\<rparr>)
   \<and> \<not> (\<forall>e\<in>set (events (snd (update_event env_ok module_A ''aaaaaaaa'' [Kw_end_time 0]))).
          start_time e \<le> end_time e)"
proof -
  have g: "get_event (events module_A) ''aaaaaaaa'' = Some ev_A"
    by (simp add: module_A_def events_save_events ev_A_def)
  have l: "fst (update_loop ev_A [Kw_end_time 0]) = ev_A\<lparr>end_time := 0\<rparr>" by simp
  have iv: "\<not> start_time (ev_A\<lparr>end_time := 0\<rparr>) \<le> end_time (ev_A\<lparr>end_time := 0\<rparr>)"
    by (simp add: example_defs)
  from create_update_no_validation[of env_ok module_A "[]" 0 0 "[]" "[]" None 0 False "[]"
      "''aaaaaaaa''" "[Kw_end_time 0]"] g
  obtain n where n: "n < length (events module_A)"
    "(\<forall>e\<in>set (events (snd (update_event env_ok module_A ''aaaaaaaa'' [Kw_end_time 0]))).
          start_time e \<le> end_time e)
      \<longleftrightarrow> start_time (fst (update_loop ev_A [Kw_end_time 0]))
            \<le> end_time (fst (update_loop ev_A [Kw_end_time 0]))
          \<and> (\<forall>k<length (events module_A). k \<noteq> n
                \<longrightarrow> start_time (events module_A ! k) \<le> end_time (events module_A ! k))"
    by auto
  from n(2) iv have ninv:
    "\<not> (\<forall>e\<in>set (events (snd (update_event env_ok module_A ''aaaaaaaa'' [Kw_end_time 0]))).
          start_time e \<le> end_time e)"
    unfolding l by blast
  have "update_event env_ok module_A ''aaaaaaaa'' [Kw_end_time 0]
       = (Inr True, save_events env_ok \<lparr>events = [ev_A\<lparr>end_time := 0\<rparr>], data_file = No_file\<rparr>)"
    by (simp add: update_event_def module_A_def events_save_events save_events_def
        to_dict_def env_ok_def ev_A_def)
  with g iv ninv show ?thesis by blast
qed

subsection \<open>C4: a failed save\<close>

text \<open>
  Claim C4 says that a mutating call whose save fails reports the failure and rolls the
  memory back. \<^verbatim>\<open>_save_events\<close> catches the exception and logs it; here a
  \<^verbatim>\<open>create_event\<close> whose save fails returns the identifier as usual, and the new
  event stays in memory.
\<close>

theorem failed_save_no_rollback_counterexample:
  "write_result env_fail = Dump_failed
   \<and> fst (create_event env_fail module_A ''B'' (combine example_day 11 0) (combine example_day 12 0)
            [] [] None 15 False ''none'') = ''aaaaaaaa''
   \<and> events (snd (create_event env_fail module_A ''B'' (combine example_day 11 0)
                    (combine example_day 12 0) [] [] None 15 False ''none'')) =
       [ev_A, \<lparr>id' = ''aaaaaaaa'', title = ''B'', description = [],
               start_time = combine example_day 11 0, end_time = combine example_day 12 0,
               location = [], attendees = [], reminder_minutes = 15,
               is_all_day = False, recurrence = ''none'', created_at = combine example_day 8 0,
               to_dict_hidden = False, fields_attr = None\<rparr>]
   \<and> events module_A = [ev_A]"
  by (simp add: fst_create_event events_create_event events_save_events env_fail_def env_ok_def
      module_A_def)

text \<open>
  C4 as amended: when writing the file fails, \<^verbatim>\<open>create_event\<close>, \<^verbatim>\<open>update_event\<close>
  and \<^verbatim>\<open>delete_event\<close> return what they return when it succeeds and the events in
  memory are those of the successful call: nothing is reported and nothing is rolled
  back. After a create, and after a delete of a known identifier, the events in memory
  are no longer those before the call.
\<close>

theorem failed_save_keeps_mutation:
  assumes "write_result io \<noteq> Written"
  shows "fst (create_event io s ttl st en descr loc att rem allday recur) =
           fst (create_event (io\<lparr>write_result := Written\<rparr>) s ttl st en descr loc att rem allday recur)
     \<and> events (snd (create_event io s ttl st en descr loc att rem allday recur)) =
           events (snd (create_event (io\<lparr>write_result := Written\<rparr>) s ttl st en descr loc att rem
                          allday recur))
     \<and> events (snd (create_event io s ttl st en descr loc att rem allday recur)) \<noteq> events s
     \<and> fst (update_event io s i kw) = fst (update_event (io\<lparr>write_result := Written\<rparr>) s i kw)
     \<and> events (snd (update_event io s i kw)) =
           events (snd (update_event (io\<lparr>write_result := Written\<rparr>) s i kw))
     \<and> fst (delete_event io s i) = fst (delete_event (io\<lparr>write_result := Written\<rparr>) s i)
     \<and> events (snd (delete_event io s i)) =
           events (snd (delete_event (io\<lparr>write_result := Written\<rparr>) s i))
     \<and> (get_event (events s) i \<noteq> None \<longrightarrow> events (snd (delete_event io s i)) \<noteq> events s)"
proof -
  have "get_event (events s) i \<noteq> None \<longrightarrow> events (snd (delete_event io s i)) \<noteq> events s"
  proof
    assume "get_event (events s) i \<noteq> None"
    then obtain ev where ev: "get_event (events s) i = Some ev" by blast
    from length_pop_first[OF this] have "pop_first i (events s) \<noteq> events s" by auto
    with ev show "events (snd (delete_event io s i)) \<noteq> events s"
      by (simp add: events_delete_event)
  qed
  then show ?thesis
    by (simp add: fst_create_event events_create_event fst_update_event events_update_event
        fst_delete_event events_delete_event)
qed

theorem failed_save_keeps_mutation_witness:
  "write_result env_fail \<noteq> Written
   \<and> events module_A = [ev_A]
   \<and> delete_event env_fail module_A ''aaaaaaaa'' = (True, \<lparr>events = [], data_file = Broken_file\<rparr>)
   \<and> events (snd (delete_event (env_fail\<lparr>write_result := Written\<rparr>) module_A ''aaaaaaaa'')) = []"
proof -
  have w: "write_result env_fail \<noteq> Written" by (simp add: env_fail_def)
  have d: "delete_event env_fail module_A ''aaaaaaaa'' = (True, \<lparr>events = [], data_file = Broken_file\<rparr>)"
    by (simp add: delete_event_def module_A_def save_events_def to_dict_def env_fail_def env_ok_def
        ev_A_def)
  from failed_save_keeps_mutation[OF w, of module_A "[]" 0 0 "[]" "[]" None 0 False "[]"
      "''aaaaaaaa''" "[]"]
  have "events (snd (delete_event env_fail module_A ''aaaaaaaa'')) =
        events (snd (delete_event (env_fail\<lparr>write_result := Written\<rparr>) module_A ''aaaaaaaa''))"
    by blast
  with d w show ?thesis by (simp add: module_A_def events_save_events)
qed

subsection \<open>C5: identifiers\<close>

text \<open>
  Claim C5 says that identifiers are unique and that \<^verbatim>\<open>create\<close> never produces one
  that is already stored. \<^verbatim>\<open>_generate_event_id\<close> returns the first eight characters
  of a random UUID and \<^verbatim>\<open>create_event\<close> does not compare them with the stored
  identifiers: when the UUID starts with the identifier of a stored event, the store
  holds the identifier twice.
\<close>

theorem create_event_id_collision:
  "map id' (events module_A) = [''aaaaaaaa'']
   \<and> map id' (events (snd (create_event env_ok module_A ''B'' (combine example_day 11 0)
        (combine example_day 12 0) [] [] None 15 False ''none''))) = [''aaaaaaaa'', ''aaaaaaaa'']"
  by (simp add: events_create_event events_save_events module_A_def ev_A_def env_ok_def)

text \<open>A keyword of a field is applied: without \<^verbatim>\<open>__dict__\<close>, \<^verbatim>\<open>__class__\<close> and
  \<^verbatim>\<open>__weakref__\<close> among the arguments, the field has the value of its keyword after
  the loop (a call has one value for each keyword).\<close>

lemma update_loop_step:
  assumes "a \<noteq> Kw_dunder_class" "a \<noteq> Kw_dunder_weakref" "\<forall>d. a \<noteq> Kw_dunder_dict d"
  shows "update_loop e (a # kws) =
           update_loop (case setattr e a of Inl x \<Rightarrow> e | Inr e' \<Rightarrow> e') kws"
  using assms by (cases "(e, a)" rule: setattr.cases) simp_all

lemma update_loop_applies_field:
  fixes get :: "calendar_event \<Rightarrow> 'a" and K :: "'a \<Rightarrow> kwarg"
  assumes step: "\<And>e v. get (case setattr e (K v) of Inl x \<Rightarrow> e | Inr e' \<Rightarrow> e') = v"
    and frame: "\<And>e kw. (\<forall>v. K v \<notin> set kw) \<and> (\<forall>d. Kw_dunder_dict (Some d) \<notin> set kw)
            \<longrightarrow> get (fst (update_loop e kw)) = get e"
    and kw: "\<forall>d. Kw_dunder_dict d \<notin> set kw" "Kw_dunder_class \<notin> set kw"
            "Kw_dunder_weakref \<notin> set kw"
    and v: "K v \<in> set kw" "\<forall>w. K w \<in> set kw \<longrightarrow> w = v"
  shows "get (fst (update_loop e kw)) = v"
  using kw v
proof (induction kw arbitrary: e)
  case Nil then show ?case by simp
next
  case (Cons a kws)
  define e' where "e' = (case setattr e a of Inl x \<Rightarrow> e | Inr e' \<Rightarrow> e')"
  from Cons.prems(1-3) have a: "a \<noteq> Kw_dunder_class" "a \<noteq> Kw_dunder_weakref"
    "\<forall>d. a \<noteq> Kw_dunder_dict d" by auto
  have e': "update_loop e (a # kws) = update_loop e' kws"
    unfolding e'_def by (rule update_loop_step[OF a])
  from Cons.prems(1-3) have rest: "\<forall>d. Kw_dunder_dict d \<notin> set kws" "Kw_dunder_class \<notin> set kws"
    "Kw_dunder_weakref \<notin> set kws" by auto
  from Cons.prems(5) have one: "\<forall>w. K w \<in> set kws \<longrightarrow> w = v" by auto
  show ?case
  proof (cases "K v \<in> set kws")
    case True
    from Cons.IH[OF rest True one, of e'] e' show ?thesis by simp
  next
    case False
    with Cons.prems(4) have "a = K v" by simp
    then have g: "get e' = v" unfolding e'_def by (simp only: step)
    from False one have "\<forall>w. K w \<notin> set kws" by blast
    with frame[of kws e'] rest(1) have "get (fst (update_loop e' kws)) = get e'" by blast
    with g e' show ?thesis by simp
  qed
qed

lemma update_loop_applies:
  "(\<forall>d. Kw_dunder_dict d \<notin> set kw) \<and> Kw_dunder_class \<notin> set kw \<and> Kw_dunder_weakref \<notin> set kw
   \<longrightarrow> (\<forall>v. Kw_id v \<in> set kw \<and> (\<forall>w. Kw_id w \<in> set kw \<longrightarrow> w = v)
              \<longrightarrow> id' (fst (update_loop e kw)) = v)
       \<and> (\<forall>v. Kw_title v \<in> set kw \<and> (\<forall>w. Kw_title w \<in> set kw \<longrightarrow> w = v)
              \<longrightarrow> title (fst (update_loop e kw)) = v)
       \<and> (\<forall>v. Kw_description v \<in> set kw \<and> (\<forall>w. Kw_description w \<in> set kw \<longrightarrow> w = v)
              \<longrightarrow> description (fst (update_loop e kw)) = v)
       \<and> (\<forall>v. Kw_start_time v \<in> set kw \<and> (\<forall>w. Kw_start_time w \<in> set kw \<longrightarrow> w = v)
              \<longrightarrow> start_time (fst (update_loop e kw)) = v)
       \<and> (\<forall>v. Kw_end_time v \<in> set kw \<and> (\<forall>w. Kw_end_time w \<in> set kw \<longrightarrow> w = v)
              \<longrightarrow> end_time (fst (update_loop e kw)) = v)
       \<and> (\<forall>v. Kw_location v \<in> set kw \<and> (\<forall>w. Kw_location w \<in> set kw \<longrightarrow> w = v)
              \<longrightarrow> location (fst (update_loop e kw)) = v)
       \<and> (\<forall>v. Kw_attendees v \<in> set kw \<and> (\<forall>w. Kw_attendees w \<in> set kw \<longrightarrow> w = v)
              \<longrightarrow> attendees (fst (update_loop e kw)) = v)
       \<and> (\<forall>v. Kw_reminder_minutes v \<in> set kw \<and> (\<forall>w. Kw_reminder_minutes w \<in> set kw \<longrightarrow> w = v)
              \<longrightarrow> reminder_minutes (fst (update_loop e kw)) = v)
       \<and> (\<forall>v. Kw_is_all_day v \<in> set kw \<and> (\<forall>w. Kw_is_all_day w \<in> set kw \<longrightarrow> w = v)
              \<longrightarrow> is_all_day (fst (update_loop e kw)) = v)
       \<and> (\<forall>v. Kw_recurrence v \<in> set kw \<and> (\<forall>w. Kw_recurrence w \<in> set kw \<longrightarrow> w = v)
              \<longrightarrow> recurrence (fst (update_loop e kw)) = v)
       \<and> (\<forall>v. Kw_created_at v \<in> set kw \<and> (\<forall>w. Kw_created_at w \<in> set kw \<longrightarrow> w = v)
              \<longrightarrow> created_at (fst (update_loop e kw)) = v)"
proof (intro impI conjI allI, goal_cases)
  case (1 v) then show ?case
    by (elim conjE)
       (rule update_loop_applies_field[where K = Kw_id and get = id' and kw = kw and v = v],
        simp, rule update_loop_frame(1), assumption+)
next
  case (2 v) then show ?case
    by (elim conjE)
       (rule update_loop_applies_field[where K = Kw_title and get = title and kw = kw and v = v],
        simp, rule update_loop_frame(2), assumption+)
next
  case (3 v) then show ?case
    by (elim conjE)
       (rule update_loop_applies_field[where K = Kw_description and get = description and kw = kw and v = v],
        simp, rule update_loop_frame(3), assumption+)
next
  case (4 v) then show ?case
    by (elim conjE)
       (rule update_loop_applies_field[where K = Kw_start_time and get = start_time and kw = kw and v = v],
        simp, rule update_loop_frame(4), assumption+)
next
  case (5 v) then show ?case
    by (elim conjE)
       (rule update_loop_applies_field[where K = Kw_end_time and get = end_time and kw = kw and v = v],
        simp, rule update_loop_frame(5), assumption+)
next
  case (6 v) then show ?case
    by (elim conjE)
       (rule update_loop_applies_field[where K = Kw_location and get = location and kw = kw and v = v],
        simp, rule update_loop_frame(6), assumption+)
next
  case (7 v) then show ?case
    by (elim conjE)
       (rule update_loop_applies_field[where K = Kw_attendees and get = attendees and kw = kw and v = v],
        simp, rule update_loop_frame(7), assumption+)
next
  case (8 v) then show ?case
    by (elim conjE)
       (rule update_loop_applies_field[where K = Kw_reminder_minutes and get = reminder_minutes and kw = kw and v = v],
        simp, rule update_loop_frame(8), assumption+)
next
  case (9 v) then show ?case
    by (elim conjE)
       (rule update_loop_applies_field[where K = Kw_is_all_day and get = is_all_day and kw = kw and v = v],
        simp, rule update_loop_frame(9), assumption+)
next
  case (10 v) then show ?case
    by (elim conjE)
       (rule update_loop_applies_field[where K = Kw_recurrence and get = recurrence and kw = kw and v = v],
        simp, rule update_loop_frame(10), assumption+)
next
  case (11 v) then show ?case
    by (elim conjE)
       (rule update_loop_applies_field[where K = Kw_created_at and get = created_at and kw = kw and v = v],
        simp, rule update_loop_frame(11), assumption+)
qed

subsection \<open>C6: what an update changes\<close>

text \<open>
  Claim C6 says that \<^verbatim>\<open>update\<close> changes only the supplied fields and can never change
  \<^verbatim>\<open>id\<close> or \<^verbatim>\<open>created_at\<close>. The loop of \<^verbatim>\<open>update_event\<close> assigns every keyword
  that names an attribute, these two included; and the keyword \<^verbatim>\<open>__dict__\<close> replaces
  all fields at once, none of them being supplied.
\<close>

theorem update_event_changes_id_counterexample:
  "events module_A = [ev_A]
   \<and> events (snd (update_event env_ok module_A ''aaaaaaaa'' [Kw_id ''zzzzzzzz'', Kw_created_at 0]))
       = [ev_A\<lparr>id' := ''zzzzzzzz'', created_at := 0\<rparr>]
   \<and> id' ev_A \<noteq> ''zzzzzzzz'' \<and> created_at ev_A \<noteq> 0
   \<and> events (snd (update_event env_ok module_A ''aaaaaaaa'' [Kw_dunder_dict (Some ev_B)])) = [ev_B]
   \<and> id' ev_B \<noteq> id' ev_A \<and> title ev_B \<noteq> title ev_A"
  by (simp add: events_update_event events_save_events module_A_def ev_A_def ev_B_def combine_def
      example_day_def us_per_day_def us_per_hour_def us_per_minute_def)

text \<open>
  C6 as amended. An update of an unknown identifier returns false and changes nothing.
  An update of a known identifier works on the first event with that identifier and
  leaves every other event in place. It assigns the keywords in the order of the call:
  a field for which neither its keyword nor a dictionary for \<^verbatim>\<open>__dict__\<close> is supplied
  keeps its value, so \<^verbatim>\<open>id\<close> and \<^verbatim>\<open>created_at\<close> keep theirs unless the caller supplies
  them; a field whose keyword is supplied has the value of the keyword afterwards, when
  none of \<^verbatim>\<open>__dict__\<close>, \<^verbatim>\<open>__class__\<close> and \<^verbatim>\<open>__weakref__\<close> is supplied. The call
  returns true unless \<^verbatim>\<open>__class__\<close>, \<^verbatim>\<open>__weakref__\<close> or a \<^verbatim>\<open>__dict__\<close> that is not a
  dictionary is supplied; then it raises \<^verbatim>\<open>TypeError\<close> or \<^verbatim>\<open>AttributeError\<close>, with
  the keywords before that one assigned and the file not touched.
\<close>

theorem update_event_frame:
  "(get_event (events s) i = None \<longrightarrow> update_event io s i kw = (Inr False, s))
   \<and> (\<forall>ev. get_event (events s) i = Some ev \<longrightarrow>
        (\<exists>n. n < length (events s) \<and> events s ! n = ev \<and> id' ev = i
           \<and> (\<forall>k<n. id' (events s ! k) \<noteq> i)
           \<and> events (snd (update_event io s i kw)) = (events s)[n := fst (update_loop ev kw)])
        \<and> (fst (update_event io s i kw) = Inr True
             \<longleftrightarrow> Kw_dunder_class \<notin> set kw \<and> Kw_dunder_weakref \<notin> set kw
                 \<and> Kw_dunder_dict None \<notin> set kw)
        \<and> (fst (update_event io s i kw) = Inr True \<or> fst (update_event io s i kw) = Inl TypeError
             \<or> fst (update_event io s i kw) = Inl AttributeError)
        \<and> (fst (update_event io s i kw) \<noteq> Inr True
             \<longrightarrow> data_file (snd (update_event io s i kw)) = data_file s)
        \<and> ((\<forall>v. Kw_id v \<notin> set kw) \<and> (\<forall>d. Kw_dunder_dict (Some d) \<notin> set kw)
               \<longrightarrow> id' (fst (update_loop ev kw)) = id' ev)
        \<and> ((\<forall>v. Kw_title v \<notin> set kw) \<and> (\<forall>d. Kw_dunder_dict (Some d) \<notin> set kw)
               \<longrightarrow> title (fst (update_loop ev kw)) = title ev)
        \<and> ((\<forall>v. Kw_description v \<notin> set kw) \<and> (\<forall>d. Kw_dunder_dict (Some d) \<notin> set kw)
               \<longrightarrow> description (fst (update_loop ev kw)) = description ev)
        \<and> ((\<forall>v. Kw_start_time v \<notin> set kw) \<and> (\<forall>d. Kw_dunder_dict (Some d) \<notin> set kw)
               \<longrightarrow> start_time (fst (update_loop ev kw)) = start_time ev)
        \<and> ((\<forall>v. Kw_end_time v \<notin> set kw) \<and> (\<forall>d. Kw_dunder_dict (Some d) \<notin> set kw)
               \<longrightarrow> end_time (fst (update_loop ev kw)) = end_time ev)
        \<and> ((\<forall>v. Kw_location v \<notin> set kw) \<and> (\<forall>d. Kw_dunder_dict (Some d) \<notin> set kw)
               \<longrightarrow> location (fst (update_loop ev kw)) = location ev)
        \<and> ((\<forall>v. Kw_attendees v \<notin> set kw) \<and> (\<forall>d. Kw_dunder_dict (Some d) \<notin> set kw)
               \<longrightarrow> attendees (fst (update_loop ev kw)) = attendees ev)
        \<and> ((\<forall>v. Kw_reminder_minutes v \<notin> set kw) \<and> (\<forall>d. Kw_dunder_dict (Some d) \<notin> set kw)
               \<longrightarrow> reminder_minutes (fst (update_loop ev kw)) = reminder_minutes ev)
        \<and> ((\<forall>v. Kw_is_all_day v \<notin> set kw) \<and> (\<forall>d. Kw_dunder_dict (Some d) \<notin> set kw)
               \<longrightarrow> is_all_day (fst (update_loop ev kw)) = is_all_day ev)
        \<and> ((\<forall>v. Kw_recurrence v \<notin> set kw) \<and> (\<forall>d. Kw_dunder_dict (Some d) \<notin> set kw)
               \<longrightarrow> recurrence (fst (update_loop ev kw)) = recurrence ev)
        \<and> ((\<forall>v. Kw_created_at v \<notin> set kw) \<and> (\<forall>d. Kw_dunder_dict (Some d) \<notin> set kw)
               \<longrightarrow> created_at (fst (update_loop ev kw)) = created_at ev)
        \<and> ((\<forall>d. Kw_dunder_dict d \<notin> set kw) \<and> Kw_dunder_class \<notin> set kw
              \<and> Kw_dunder_weakref \<notin> set kw
            \<longrightarrow> (\<forall>v. Kw_id v \<in> set kw \<and> (\<forall>w. Kw_id w \<in> set kw \<longrightarrow> w = v)
                       \<longrightarrow> id' (fst (update_loop ev kw)) = v)
                \<and> (\<forall>v. Kw_title v \<in> set kw \<and> (\<forall>w. Kw_title w \<in> set kw \<longrightarrow> w = v)
                       \<longrightarrow> title (fst (update_loop ev kw)) = v)
                \<and> (\<forall>v. Kw_description v \<in> set kw \<and> (\<forall>w. Kw_description w \<in> set kw \<longrightarrow> w = v)
                       \<longrightarrow> description (fst (update_loop ev kw)) = v)
                \<and> (\<forall>v. Kw_start_time v \<in> set kw \<and> (\<forall>w. Kw_start_time w \<in> set kw \<longrightarrow> w = v)
                       \<longrightarrow> start_time (fst (update_loop ev kw)) = v)
                \<and> (\<forall>v. Kw_end_time v \<in> set kw \<and> (\<forall>w. Kw_end_time w \<in> set kw \<longrightarrow> w = v)
                       \<longrightarrow> end_time (fst (update_loop ev kw)) = v)
                \<and> (\<forall>v. Kw_location v \<in> set kw \<and> (\<forall>w. Kw_location w \<in> set kw \<longrightarrow> w = v)
                       \<longrightarrow> location (fst (update_loop ev kw)) = v)
                \<and> (\<forall>v. Kw_attendees v \<in> set kw \<and> (\<forall>w. Kw_attendees w \<in> set kw \<longrightarrow> w = v)
                       \<longrightarrow> attendees (fst (update_loop ev kw)) = v)
                \<and> (\<forall>v. Kw_reminder_minutes v \<in> set kw \<and> (\<forall>w. Kw_reminder_minutes w \<in> set kw \<longrightarrow> w = v)
                       \<longrightarrow> reminder_minutes (fst (update_loop ev kw)) = v)
                \<and> (\<forall>v. Kw_is_all_day v \<in> set kw \<and> (\<forall>w. Kw_is_all_day w \<in> set kw \<longrightarrow> w = v)
                       \<longrightarrow> is_all_day (fst (update_loop ev kw)) = v)
                \<and> (\<forall>v. Kw_recurrence v \<in> set kw \<and> (\<forall>w. Kw_recurrence w \<in> set kw \<longrightarrow> w = v)
                       \<longrightarrow> recurrence (fst (update_loop ev kw)) = v)
                \<and> (\<forall>v. Kw_created_at v \<in> set kw \<and> (\<forall>w. Kw_created_at w \<in> set kw \<longrightarrow> w = v)
                       \<longrightarrow> created_at (fst (update_loop ev kw)) = v)))"
  (is "?N \<and> (\<forall>ev. ?P ev \<longrightarrow> ?B ev)")
proof (rule conjI)
  show ?N by (simp add: update_event_def)
next
  have main: "?B ev" if a: "?P ev" for ev
  proof (intro conjI)
    from get_event_Some[OF a] obtain n where
      n: "n < length (events s)" "events s ! n = ev" "id' ev = i" "\<forall>k<n. id' (events s ! k) \<noteq> i"
         "\<forall>f. update_first i f (events s) = (events s)[n := f ev]"
      by blast
    have "events (snd (update_event io s i kw)) = (events s)[n := fst (update_loop ev kw)]"
      using a n(5) by (simp add: events_update_event)
    with n show "\<exists>n. n < length (events s) \<and> events s ! n = ev \<and> id' ev = i
           \<and> (\<forall>k<n. id' (events s ! k) \<noteq> i)
           \<and> events (snd (update_event io s i kw)) = (events s)[n := fst (update_loop ev kw)]"
      by blast
    have r: "fst (update_event io s i kw) = Inr True \<longleftrightarrow> snd (update_loop ev kw) = None"
      using a by (simp add: fst_update_event split: option.splits)
    show "fst (update_event io s i kw) = Inr True
             \<longleftrightarrow> Kw_dunder_class \<notin> set kw \<and> Kw_dunder_weakref \<notin> set kw
                 \<and> Kw_dunder_dict None \<notin> set kw"
      unfolding r by (rule update_loop_returns)
    show "fst (update_event io s i kw) = Inr True \<or> fst (update_event io s i kw) = Inl TypeError
             \<or> fst (update_event io s i kw) = Inl AttributeError"
      using a update_loop_error[of ev kw]
      by (auto simp add: fst_update_event split: option.splits)
    show "fst (update_event io s i kw) \<noteq> Inr True
             \<longrightarrow> data_file (snd (update_event io s i kw)) = data_file s"
      using a by (simp add: update_event_def split: option.splits prod.splits)
    show "(\<forall>d. Kw_dunder_dict d \<notin> set kw) \<and> Kw_dunder_class \<notin> set kw
              \<and> Kw_dunder_weakref \<notin> set kw
            \<longrightarrow> (\<forall>v. Kw_id v \<in> set kw \<and> (\<forall>w. Kw_id w \<in> set kw \<longrightarrow> w = v)
                       \<longrightarrow> id' (fst (update_loop ev kw)) = v)
                \<and> (\<forall>v. Kw_title v \<in> set kw \<and> (\<forall>w. Kw_title w \<in> set kw \<longrightarrow> w = v)
                       \<longrightarrow> title (fst (update_loop ev kw)) = v)
                \<and> (\<forall>v. Kw_description v \<in> set kw \<and> (\<forall>w. Kw_description w \<in> set kw \<longrightarrow> w = v)
                       \<longrightarrow> description (fst (update_loop ev kw)) = v)
                \<and> (\<forall>v. Kw_start_time v \<in> set kw \<and> (\<forall>w. Kw_start_time w \<in> set kw \<longrightarrow> w = v)
                       \<longrightarrow> start_time (fst (update_loop ev kw)) = v)
                \<and> (\<forall>v. Kw_end_time v \<in> set kw \<and> (\<forall>w. Kw_end_time w \<in> set kw \<longrightarrow> w = v)
                       \<longrightarrow> end_time (fst (update_loop ev kw)) = v)
                \<and> (\<forall>v. Kw_location v \<in> set kw \<and> (\<forall>w. Kw_location w \<in> set kw \<longrightarrow> w = v)
                       \<longrightarrow> location (fst (update_loop ev kw)) = v)
                \<and> (\<forall>v. Kw_attendees v \<in> set kw \<and> (\<forall>w. Kw_attendees w \<in> set kw \<longrightarrow> w = v)
                       \<longrightarrow> attendees (fst (update_loop ev kw)) = v)
                \<and> (\<forall>v. Kw_reminder_minutes v \<in> set kw \<and> (\<forall>w. Kw_reminder_minutes w \<in> set kw \<longrightarrow> w = v)
                       \<longrightarrow> reminder_minutes (fst (update_loop ev kw)) = v)
                \<and> (\<forall>v. Kw_is_all_day v \<in> set kw \<and> (\<forall>w. Kw_is_all_day w \<in> set kw \<longrightarrow> w = v)
                       \<longrightarrow> is_all_day (fst (update_loop ev kw)) = v)
                \<and> (\<forall>v. Kw_recurrence v \<in> set kw \<and> (\<forall>w. Kw_recurrence w \<in> set kw \<longrightarrow> w = v)
                       \<longrightarrow> recurrence (fst (update_loop ev kw)) = v)
                \<and> (\<forall>v. Kw_created_at v \<in> set kw \<and> (\<forall>w. Kw_created_at w \<in> set kw \<longrightarrow> w = v)
                       \<longrightarrow> created_at (fst (update_loop ev kw)) = v)"
      by (rule update_loop_applies)
  qed (rule update_loop_frame)+
  then show "\<forall>ev. ?P ev \<longrightarrow> ?B ev" by blast
qed

theorem update_event_frame_witness:
  "get_event (events module_A) ''aaaaaaaa'' = Some ev_A
   \<and> update_event env_ok module_A ''aaaaaaaa'' [Kw_title ''Standup'', No_attr]
       = (Inr True, save_events env_ok \<lparr>events = [ev_A\<lparr>title := ''Standup''\<rparr>], data_file = No_file\<rparr>)
   \<and> id' (fst (update_loop ev_A [Kw_title ''Standup'', No_attr])) = id' ev_A
   \<and> created_at (fst (update_loop ev_A [Kw_title ''Standup'', No_attr])) = created_at ev_A
   \<and> title (fst (update_loop ev_A [Kw_title ''Standup'', No_attr])) = ''Standup''
   \<and> fst (update_event env_ok module_A ''aaaaaaaa'' [Kw_title ''Standup'', Kw_dunder_class, Kw_id []])
       = Inl TypeError
   \<and> events (snd (update_event env_ok module_A ''aaaaaaaa''
                    [Kw_title ''Standup'', Kw_dunder_class, Kw_id []]))
       = [ev_A\<lparr>title := ''Standup''\<rparr>]"
proof -
  let ?kw = "[Kw_title ''Standup'', No_attr]"
  have g: "get_event (events module_A) ''aaaaaaaa'' = Some ev_A"
    by (simp add: module_A_def events_save_events ev_A_def)
  note t = update_event_frame[of module_A "''aaaaaaaa''" env_ok ?kw, THEN conjunct2, THEN spec,
      of ev_A, THEN mp, OF g]
  have h: "(\<forall>v. Kw_id v \<notin> set ?kw) \<and> (\<forall>d. Kw_dunder_dict (Some d) \<notin> set ?kw)"
    "(\<forall>v. Kw_created_at v \<notin> set ?kw) \<and> (\<forall>d. Kw_dunder_dict (Some d) \<notin> set ?kw)"
    "(\<forall>d. Kw_dunder_dict d \<notin> set ?kw) \<and> Kw_dunder_class \<notin> set ?kw \<and> Kw_dunder_weakref \<notin> set ?kw"
    "Kw_title ''Standup'' \<in> set ?kw \<and> (\<forall>w. Kw_title w \<in> set ?kw \<longrightarrow> w = ''Standup'')"
    by simp_all
  note t4 = t[THEN conjunct2, THEN conjunct2, THEN conjunct2, THEN conjunct2]
  note f1 = t4[THEN conjunct1, THEN mp, OF h(1)]
  note t14 = t4[THEN conjunct2, THEN conjunct2, THEN conjunct2, THEN conjunct2, THEN conjunct2,
      THEN conjunct2, THEN conjunct2, THEN conjunct2, THEN conjunct2, THEN conjunct2]
  note f2 = t14[THEN conjunct1, THEN mp, OF h(2)]
  note f3 = t14[THEN conjunct2, THEN mp, OF h(3), THEN conjunct2, THEN conjunct1,
      THEN spec[where x = "''Standup''"], THEN mp, OF h(4)]
  note f = f1 f2 f3
  have u: "update_event env_ok module_A ''aaaaaaaa'' ?kw
       = (Inr True, save_events env_ok \<lparr>events = [ev_A\<lparr>title := ''Standup''\<rparr>], data_file = No_file\<rparr>)"
    by (simp add: update_event_def module_A_def events_save_events save_events_def
        to_dict_def env_ok_def ev_A_def)
  have r: "fst (update_event env_ok module_A ''aaaaaaaa'' [Kw_title ''Standup'', Kw_dunder_class, Kw_id []])
       = Inl TypeError"
    "events (snd (update_event env_ok module_A ''aaaaaaaa''
                    [Kw_title ''Standup'', Kw_dunder_class, Kw_id []]))
       = [ev_A\<lparr>title := ''Standup''\<rparr>]"
    by (simp_all add: fst_update_event events_update_event module_A_def events_save_events ev_A_def)
  from g f u r show ?thesis by (intro conjI)
qed

section \<open>Properties of the queries\<close>

subsection \<open>C10: searching for the empty string\<close>

lemma lower_Nil: "lower [] = []"
  by (simp add: lower_def)

text \<open>
  Claim C10: for every store, \<^verbatim>\<open>search_events\<close> with the empty query returns every
  stored event, ordered by start time: the result is the stable sort of the stored list
  by \<open>start_time\<close>, it has the same events with the same multiplicities, and its start
  times ascend.
\<close>

theorem search_events_empty_query:
  "search_events evs [] = sort_key start_time evs
   \<and> mset (search_events evs []) = mset evs
   \<and> sorted (map start_time (search_events evs []))"
  by (simp add: search_events_def lower_Nil)

subsection \<open>C2: conflicts\<close>

text \<open>
  Claim C2 gives the overlap test and says that with A = [10:00, 11:00) and
  B = [11:00, 12:00) stored, the conflicts of [10:30, 11:30) are A alone. B overlaps that
  interval from 11:00 to 11:30 and the code reports it. The claim also says that an event
  whose identifier equals \<^verbatim>\<open>exclude_id\<close> is never reported; the guard
  \<^verbatim>\<open>if exclude_event_id and ...\<close> skips nothing when \<^verbatim>\<open>exclude_event_id\<close> is the empty
  string.
\<close>

theorem get_event_conflicts_example_counterexample:
  "get_event_conflicts [ev_A, ev_B] (combine example_day 10 30) (combine example_day 11 30) None
     \<noteq> [ev_A]
   \<and> get_event_conflicts [ev_A\<lparr>id' := []\<rparr>] (combine example_day 10 30)
         (combine example_day 11 30) (Some []) = [ev_A\<lparr>id' := []\<rparr>]"
  by (simp add: ev_A_def ev_B_def combine_def example_day_def us_per_day_def us_per_hour_def
      us_per_minute_def truthy_def)

text \<open>
  C2 as amended: \<^verbatim>\<open>get_event_conflicts\<close> returns, in stored order, exactly the events
  with \<open>start_time < end\<close> and \<open>end_time > start\<close> whose identifier is not a non-empty
  \<^verbatim>\<open>exclude_event_id\<close>. With A and B stored, the conflicts of [10:30, 11:30) are A and
  B, those of [10:30, 11:00), which B only touches, are A alone, and those of
  [10:30, 12:30) are A and B.
\<close>

theorem get_event_conflicts_overlap:
  "get_event_conflicts evs st en x =
     filter (\<lambda>e. start_time e < en \<and> end_time e > st \<and> \<not> (truthy x \<and> Some (id' e) = x)) evs
   \<and> get_event_conflicts [ev_A, ev_B] (combine example_day 10 30) (combine example_day 11 30) None
       = [ev_A, ev_B]
   \<and> get_event_conflicts [ev_A, ev_B] (combine example_day 10 30) (combine example_day 11 0) None
       = [ev_A]
   \<and> get_event_conflicts [ev_A, ev_B] (combine example_day 10 30) (combine example_day 12 30) None
       = [ev_A, ev_B]"
proof -
  have "get_event_conflicts evs st en x =
     filter (\<lambda>e. start_time e < en \<and> end_time e > st \<and> \<not> (truthy x \<and> Some (id' e) = x)) evs"
    by (induction evs) auto
  then show ?thesis
    by (simp add: ev_A_def ev_B_def combine_def example_day_def us_per_day_def us_per_hour_def
        us_per_minute_def truthy_def)
qed

subsection \<open>C9: due reminders\<close>

lemma reminders_result:
  "get_events_needing_reminders now evs = Inr r \<Longrightarrow>
     r = filter (\<lambda>e. now - minutes 1 \<le> start_time e - minutes (reminder_minutes e)
                    \<and> start_time e - minutes (reminder_minutes e) \<le> now) evs"
proof (induction evs arbitrary: r)
  case Nil
  then show ?case by simp
next
  case (Cons event evs)
  then show ?case
    by (auto simp: dt_add_def Let_def split: if_splits sum.splits)
qed

lemma reminders_returns:
  "\<forall>e\<in>set evs. 0 \<le> start_time e - minutes (reminder_minutes e)
       \<and> start_time e - minutes (reminder_minutes e) + minutes 1 \<le> dt_max \<Longrightarrow>
   \<exists>r. get_events_needing_reminders now evs = Inr r"
proof (induction evs)
  case Nil
  then show ?case by simp
next
  case (Cons event evs)
  then obtain r where r: "get_events_needing_reminders now evs = Inr r" by auto
  have m: "0 \<le> minutes 1" by (simp add: minutes_def us_per_minute_def)
  from Cons.prems have b: "0 \<le> start_time event - minutes (reminder_minutes event)"
    "start_time event - minutes (reminder_minutes event) + minutes 1 \<le> dt_max" by auto
  with m r show ?case
    by (auto simp: dt_add_def Let_def)
qed

text \<open>
  Claim C9: \<^verbatim>\<open>get_events_needing_reminders\<close>, polled at \<open>now\<close>, returns a stored event
  exactly when its reminder time \<open>start_time - reminder_minutes\<close> lies in the closed
  one-minute window ending at \<open>now\<close>. The call returns (no \<^verbatim>\<open>OverflowError\<close>)
  whenever every reminder time, and the minute after it, is a datetime Python can
  represent, and what it returns is the stored list filtered by the window.
\<close>

theorem get_events_needing_reminders_window:
  "(\<forall>r. get_events_needing_reminders now evs = Inr r \<longrightarrow>
       r = filter (\<lambda>e. now - minutes 1 \<le> start_time e - minutes (reminder_minutes e)
                      \<and> start_time e - minutes (reminder_minutes e) \<le> now) evs)
   \<and> ((\<forall>e\<in>set evs. 0 \<le> start_time e - minutes (reminder_minutes e)
            \<and> start_time e - minutes (reminder_minutes e) + minutes 1 \<le> dt_max)
        \<longrightarrow> (\<exists>r. get_events_needing_reminders now evs = Inr r))"
  using reminders_result reminders_returns by blast

theorem get_events_needing_reminders_window_witness:
  "get_events_needing_reminders (combine example_day 9 45) [ev_A, ev_B] =
     Inr (filter (\<lambda>e. combine example_day 9 45 - minutes 1
                          \<le> start_time e - minutes (reminder_minutes e)
                      \<and> start_time e - minutes (reminder_minutes e) \<le> combine example_day 9 45)
            [ev_A, ev_B])
   \<and> get_events_needing_reminders (combine example_day 9 45) [ev_A, ev_B] = Inr [ev_A]"
proof -
  have h: "\<forall>e\<in>set [ev_A, ev_B]. 0 \<le> start_time e - minutes (reminder_minutes e)
            \<and> start_time e - minutes (reminder_minutes e) + minutes 1 \<le> dt_max"
    by (simp add: ev_A_def ev_B_def combine_def example_day_def us_per_day_def us_per_hour_def
        us_per_minute_def minutes_def dt_max_def MAXORDINAL_def)
  from get_events_needing_reminders_window[of "combine example_day 9 45" "[ev_A, ev_B]"] h
  obtain r where r: "get_events_needing_reminders (combine example_day 9 45) [ev_A, ev_B] = Inr r"
    by blast
  with get_events_needing_reminders_window[of "combine example_day 9 45" "[ev_A, ev_B]"]
  have f: "r = filter (\<lambda>e. combine example_day 9 45 - minutes 1
                          \<le> start_time e - minutes (reminder_minutes e)
                      \<and> start_time e - minutes (reminder_minutes e) \<le> combine example_day 9 45)
            [ev_A, ev_B]"
    by blast
  have "filter (\<lambda>e. combine example_day 9 45 - minutes 1
                          \<le> start_time e - minutes (reminder_minutes e)
                      \<and> start_time e - minutes (reminder_minutes e) \<le> combine example_day 9 45)
            [ev_A, ev_B] = [ev_A]"
    by (simp add: ev_A_def ev_B_def combine_def example_day_def us_per_day_def us_per_hour_def
        us_per_minute_def minutes_def)
  with r f show ?thesis by simp
qed

subsection \<open>C3: free slots\<close>

lemma le_div_iff_int:
  fixes m x k :: int
  assumes "0 < k"
  shows "(m \<le> x div k) = (m * k \<le> x)"
proof
  assume "m \<le> x div k"
  then have "m * k \<le> (x div k) * k" using assms by (simp add: mult_right_mono)
  also have "\<dots> \<le> x"
  proof -
    have "x = (x div k) * k + x mod k" by simp
    moreover have "0 \<le> x mod k" using assms by simp
    ultimately show ?thesis by linarith
  qed
  finally show "m * k \<le> x" .
next
  assume "m * k \<le> x"
  then have "(m * k) div k \<le> x div k" using assms by (rule zdiv_mono1)
  then show "m \<le> x div k" using assms by simp
qed

lemma gap_minutes:
  fixes x :: int
  assumes "0 < x" "x < 86400000000"
  shows "(m \<le> (x mod 86400000000) div 1000000 div 60) = (m * 60000000 \<le> x)"
proof -
  have "x mod 86400000000 = x" using assms by simp
  moreover have "x div 1000000 div 60 = x div (1000000 * 60)"
    by (simp add: zdiv_zmult2_eq)
  ultimately show ?thesis using le_div_iff_int[of 60000000 m x] by simp
qed

lemma code_gap_is_long_enough:
  assumes "a < b" "b - a < us_per_day"
  shows "(td_seconds (b - a) div 60 \<ge> m) = long_enough m a b"
proof -
  have "0 < b - a" "b - a < 86400000000" using assms by (simp_all add: us_per_day_def)
  from gap_minutes[OF this, of m] assms(1) show ?thesis
    by (simp add: td_seconds_def long_enough_def minutes_def us_per_day_def us_per_second_def
        us_per_minute_def)
qed

lemma date_of_bounds:
  assumes "date_of t = d"
  shows "(d - 1) * us_per_day \<le> t \<and> t < d * us_per_day"
proof -
  have a: "t div 86400000000 + 1 = d" using assms by (simp add: date_of_def us_per_day_def)
  have "t = (t div 86400000000) * 86400000000 + t mod 86400000000" by simp
  moreover have "0 \<le> t mod 86400000000" "t mod 86400000000 < 86400000000" by simp_all
  ultimately show ?thesis using a by (auto simp: algebra_simps us_per_day_def)
qed

lemma fst_free_loop_ge: "c \<le> fst (free_loop m c acc es)"
proof (induction es arbitrary: c acc)
  case Nil
  then show ?case by simp
next
  case (Cons e es)
  have "max c (end_time e) \<le> fst (free_loop m (max c (end_time e))
      (if start_time e > c \<and> td_seconds (start_time e - c) div 60 \<ge> m
       then acc @ [(c, start_time e)] else acc) es)"
    by (rule Cons.IH)
  then show ?case by (simp add: Let_def)
qed

lemma free_loop_append:
  "free_loop m c acc (es @ [e]) =
     (let (c', acc') = free_loop m c acc es in free_loop m c' acc' [e])"
  by (induction es arbitrary: c acc) (simp_all add: Let_def)

lemma free_loop_spec_walk:
  assumes "\<forall>e\<in>set es. date_of (start_time e) = d" "combine d 9 0 \<le> c"
  shows "free_loop m c acc es = (fst (spec_walk m c es), acc @ snd (spec_walk m c es))"
  using assms
proof (induction es arbitrary: c acc)
  case Nil
  then show ?case by simp
next
  case (Cons e es)
  have d: "(d - 1) * us_per_day \<le> start_time e \<and> start_time e < d * us_per_day"
    using Cons.prems(1) by (simp add: date_of_bounds)
  have g: "(start_time e > c \<and> td_seconds (start_time e - c) div 60 \<ge> m)
           = long_enough m c (start_time e)"
  proof (cases "c < start_time e")
    case True
    have "start_time e - c < us_per_day"
      using d Cons.prems(2) by (simp add: combine_def us_per_day_def us_per_hour_def)
    with True show ?thesis by (simp add: code_gap_is_long_enough)
  next
    case False
    then show ?thesis by (simp add: long_enough_def)
  qed
  have c': "combine d 9 0 \<le> max c (end_time e)" using Cons.prems(2) by simp
  have "\<forall>e\<in>set es. date_of (start_time e) = d" using Cons.prems(1) by simp
  from Cons.IH[OF this c'] g show ?case
    by (simp add: Let_def split_beta)
qed

lemma final_gap:
  assumes "combine d 9 0 \<le> c"
  shows "(c < combine d 18 0 \<and> td_seconds (combine d 18 0 - c) div 60 \<ge> m)
         = long_enough m c (combine d 18 0)"
proof (cases "c < combine d 18 0")
  case True
  have "combine d 18 0 - c < us_per_day"
    using assms by (simp add: combine_def us_per_day_def us_per_hour_def)
  with True show ?thesis by (simp add: code_gap_is_long_enough)
next
  case False
  then show ?thesis by (simp add: long_enough_def)
qed

lemma fst_spec_walk_ge: "c \<le> fst (spec_walk m c es)"
proof (induction es arbitrary: c)
  case Nil
  then show ?case by simp
next
  case (Cons e es)
  have "max c (end_time e) \<le> fst (spec_walk m (max c (end_time e)) es)" by (rule Cons.IH)
  then show ?case by (simp add: split_beta)
qed

lemma get_free_time_slots_spec: "get_free_time_slots evs d m = free_slots_spec evs d m"
proof -
  let ?day = "sort_key start_time (filter (\<lambda>e. date_of (start_time e) = d) evs)"
  have s: "sort_key start_time ?day = ?day"
    by (rule sort_key_id_if_sorted) (rule sorted_sort_key)
  have a: "\<forall>e\<in>set ?day. date_of (start_time e) = d" by simp
  have l: "free_loop m (combine d 9 0) [] ?day =
             (fst (spec_walk m (combine d 9 0) ?day), [] @ snd (spec_walk m (combine d 9 0) ?day))"
    by (rule free_loop_spec_walk[OF a]) simp
  have f: "(fst (spec_walk m (combine d 9 0) ?day) < combine d 18 0
            \<and> td_seconds (combine d 18 0 - fst (spec_walk m (combine d 9 0) ?day)) div 60 \<ge> m)
           = long_enough m (fst (spec_walk m (combine d 9 0) ?day)) (combine d 18 0)"
    by (rule final_gap) (rule fst_spec_walk_ge)
  show ?thesis
    unfolding get_free_time_slots_def free_slots_spec_def get_events_for_date_def s Let_def l
    using f by (simp add: split_beta)
qed

text \<open>
  Claim C3: \<^verbatim>\<open>get_free_time_slots\<close> is the walk that the specification describes, for
  every store, date and minimum duration: the minutes that the code reads from the
  \<^verbatim>\<open>seconds\<close> attribute of the difference are the true length of the gap, because the
  cursor never lies before 09:00 of the day and every event of the day starts on it. The
  cursor of the loop never moves backward, whatever the events are: it is at least where
  it started, and processing one more event never decreases it. With the single event
  [10:00, 11:00), a minimum of 30 minutes gives (09:00, 10:00) and (11:00, 18:00), and a
  minimum of 90 minutes leaves out (09:00, 10:00).
\<close>

theorem get_free_time_slots_walk:
  "get_free_time_slots evs d m = free_slots_spec evs d m
   \<and> c \<le> fst (free_loop m c acc es)
   \<and> fst (free_loop m c acc es) \<le> fst (free_loop m c acc (es @ [e]))
   \<and> get_free_time_slots [ev_A] example_day 30 =
       [(combine example_day 9 0, combine example_day 10 0),
        (combine example_day 11 0, combine example_day 18 0)]
   \<and> get_free_time_slots [ev_A] example_day 90 =
       [(combine example_day 11 0, combine example_day 18 0)]"
proof (intro conjI)
  show "get_free_time_slots evs d m = free_slots_spec evs d m" by (rule get_free_time_slots_spec)
  show "c \<le> fst (free_loop m c acc es)" by (rule fst_free_loop_ge)
  show "fst (free_loop m c acc es) \<le> fst (free_loop m c acc (es @ [e]))"
    by (simp add: free_loop_append split_beta Let_def)
  show "get_free_time_slots [ev_A] example_day 30 =
       [(combine example_day 9 0, combine example_day 10 0),
        (combine example_day 11 0, combine example_day 18 0)]"
    by (simp add: get_free_time_slots_def get_events_for_date_def ev_A_def date_of_def
        combine_def example_day_def td_seconds_def us_per_day_def us_per_hour_def
        us_per_minute_def us_per_second_def Let_def)
  show "get_free_time_slots [ev_A] example_day 90 =
       [(combine example_day 11 0, combine example_day 18 0)]"
    by (simp add: get_free_time_slots_def get_events_for_date_def ev_A_def date_of_def
        combine_def example_day_def td_seconds_def us_per_day_def us_per_hour_def
        us_per_minute_def us_per_second_def Let_def)
qed

section \<open>Properties of the calendar matrix\<close>

subsection \<open>C8: the month grid\<close>

lemma date_add_days_Inr: "date_add_days d k = Inr r \<Longrightarrow> r = d + k \<and> 0 < d + k \<and> d + k \<le> MAXORDINAL"
  by (simp add: date_add_days_def Let_def split: if_splits)

lemma date_add_days_ok: "0 < d + k \<Longrightarrow> d + k \<le> MAXORDINAL \<Longrightarrow> date_add_days d k = Inr (d + k)"
  by (simp add: date_add_days_def Let_def)

lemma map_upt_shift: "map g [0..<Suc n] = g 0 # map (\<lambda>i. g (Suc i)) [0..<n]"
  by (simp add: map_upt_Suc del: upt_Suc)

lemma build_days_Inr:
  "build_days f n cd wd = Inr (wd', cd') \<Longrightarrow>
     wd' = wd @ map (\<lambda>i. f (cd + int i)) [0..<n] \<and> cd' = cd + int n"
proof (induction n arbitrary: cd wd)
  case 0
  then show ?case by simp
next
  case (Suc n)
  from Suc.prems obtain nd where nd: "date_add_days cd 1 = Inr nd"
    and b: "build_days f n nd (wd @ [f cd]) = Inr (wd', cd')"
    by (auto split: sum.splits)
  from date_add_days_Inr[OF nd] have e: "nd = cd + 1" by simp
  from Suc.IH[OF b] have "wd' = (wd @ [f cd]) @ map (\<lambda>i. f (nd + int i)) [0..<n]"
    and "cd' = nd + int n" by simp_all
  with e show ?case
    by (simp add: map_upt_shift[of "\<lambda>i. f (cd + int i)"] add.assoc del: upt_Suc)
qed

lemma build_days_ok:
  "0 < cd \<Longrightarrow> cd + int n \<le> MAXORDINAL \<Longrightarrow> \<exists>r. build_days f n cd wd = Inr r"
proof (induction n arbitrary: cd wd)
  case 0
  then show ?case by simp
next
  case (Suc n)
  have "date_add_days cd 1 = Inr (cd + 1)" using Suc.prems by (intro date_add_days_ok) simp_all
  moreover have "\<exists>r. build_days f n (cd + 1) (wd @ [f cd]) = Inr r"
    using Suc.prems by (intro Suc.IH) simp_all
  ultimately show ?case by simp
qed

lemma build_days_fails:
  "build_days f (Suc n) cd wd = Inr r \<Longrightarrow> 0 < cd + 1 \<and> cd + int (Suc n) \<le> MAXORDINAL"
proof (induction n arbitrary: cd wd r)
  case 0
  then show ?case by (auto split: sum.splits dest: date_add_days_Inr)
next
  case (Suc n)
  from Suc.prems obtain nd where nd: "date_add_days cd 1 = Inr nd"
    and b: "build_days f (Suc n) nd (wd @ [f cd]) = Inr r"
    by (auto split: sum.splits)
  from date_add_days_Inr[OF nd] Suc.IH[OF b] show ?case by simp
qed

lemma build_weeks_Inr:
  "build_weeks f n cd cal = Inr cal' \<Longrightarrow>
     cal' = cal @ map (\<lambda>w. map (\<lambda>i. f (cd + 7 * int w + int i)) [0..<7]) [0..<n]"
proof (induction n arbitrary: cd cal)
  case 0
  then show ?case by simp
next
  case (Suc n)
  from Suc.prems obtain wd nd where d: "build_days f 7 cd [] = Inr (wd, nd)"
    and b: "build_weeks f n nd (cal @ [wd]) = Inr cal'"
    by (auto split: sum.splits)
  from build_days_Inr[OF d] have e: "wd = map (\<lambda>i. f (cd + int i)) [0..<7]" "nd = cd + 7"
    by simp_all
  define G where "G = (\<lambda>w. map (\<lambda>i. f (cd + 7 * int w + int i)) [0..<7])"
  have g0: "G 0 = wd" by (simp add: G_def e)
  have gS: "\<And>w. G (Suc w) = map (\<lambda>i. f (nd + 7 * int w + int i)) [0..<7]"
    by (simp add: G_def e algebra_simps)
  have g: "map G [0..<Suc n] = G 0 # map (\<lambda>w. G (Suc w)) [0..<n]" by (rule map_upt_shift)
  from Suc.IH[OF b] have "cal' = cal @ map G [0..<Suc n]"
    unfolding g g0 gS by simp
  then show ?case by (simp only: G_def)
qed

lemma build_weeks_ok:
  "0 < cd \<Longrightarrow> cd + 7 * int n \<le> MAXORDINAL \<Longrightarrow> \<exists>r. build_weeks f n cd cal = Inr r"
proof (induction n arbitrary: cd cal)
  case 0
  then show ?case by simp
next
  case (Suc n)
  have "\<exists>r. build_days f 7 cd [] = Inr r" using Suc.prems by (intro build_days_ok) simp_all
  then obtain wd nd where d: "build_days f 7 cd [] = Inr (wd, nd)" by (cases) auto
  from build_days_Inr[OF d] have nd: "nd = cd + 7" by simp
  have "\<exists>r. build_weeks f n nd (cal @ [wd]) = Inr r"
    using Suc.prems nd by (intro Suc.IH) simp_all
  with d show ?case by simp
qed

lemma map_of_append_at:
  "map_of (append_at k e m) k' =
     (if k' = k then Some ((case map_of m k of None \<Rightarrow> [] | Some es \<Rightarrow> es) @ [e])
      else map_of m k')"
  by (induction m) auto

lemma map_of_foldl_append_at:
  "map_of (foldl (\<lambda>m e. append_at (key e) e m) m0 evs) d =
     (if filter (\<lambda>e. key e = d) evs = [] then map_of m0 d
      else Some ((case map_of m0 d of None \<Rightarrow> [] | Some es \<Rightarrow> es) @ filter (\<lambda>e. key e = d) evs))"
proof (induction evs arbitrary: m0)
  case Nil
  then show ?case by simp
next
  case (Cons a evs)
  show ?case
    by (simp add: Cons.IH map_of_append_at)
qed

lemma cell_events_mk_cell:
  "cell_events (mk_cell y m today (events_by_date all_events) d) =
     filter (\<lambda>e. date_of (start_time e) = d) all_events"
  by (simp add: mk_cell_def events_by_date_def
      map_of_foldl_append_at[of "\<lambda>e. date_of (start_time e)"])

lemma month_cases:
  fixes m :: int
  assumes "1 \<le> m" "m \<le> 12"
  shows "m = 1 \<or> m = 2 \<or> m = 3 \<or> m = 4 \<or> m = 5 \<or> m = 6 \<or> m = 7 \<or> m = 8 \<or> m = 9 \<or> m = 10
         \<or> m = 11 \<or> m = 12"
  using assms by arith

lemma days_before_month_bounds:
  assumes "1 \<le> m" "m \<le> 12"
  shows "0 \<le> days_before_month y m" "days_before_month y m \<le> 335"
    "2 \<le> m \<Longrightarrow> 31 \<le> days_before_month y m"
    "m \<le> 11 \<Longrightarrow> days_before_month y m \<le> 305"
  using month_cases[OF assms]
  by (auto simp: days_before_month_def DAYS_BEFORE_MONTH_def)

lemma days_in_month_ge: 
  assumes "1 \<le> m" "m \<le> 12"
  shows "28 \<le> days_in_month y m"
  using month_cases[OF assms]
  by (auto simp: days_in_month_def DAYS_IN_MONTH_def)

lemma div_bounds:
  fixes x k :: int
  assumes "0 < k"
  shows "k * (x div k) \<le> x" "x < k * (x div k) + k"
proof -
  have "x = k * (x div k) + x mod k" by simp
  moreover have "0 \<le> x mod k" "x mod k < k" using assms by simp_all
  ultimately show "k * (x div k) \<le> x" "x < k * (x div k) + k" by linarith+
qed

lemma days_before_year_bounds:
  assumes "1 \<le> y" "y \<le> 9999"
  shows "0 \<le> days_before_year y" "days_before_year y \<le> 3651696"
    "2 \<le> y \<Longrightarrow> 365 \<le> days_before_year y"
    "y \<le> 9998 \<Longrightarrow> days_before_year y \<le> 3651331"
proof -
  define y1 where "y1 = y - 1"
  define a where "a = y1 div 4"
  define b where "b = y1 div 100"
  define c where "c = y1 div 400"
  have d: "days_before_year y = y1 * 365 + a - b + c"
    by (simp add: days_before_year_def y1_def a_def b_def c_def Let_def)
  have y1: "0 \<le> y1" "y1 \<le> 9998" using assms by (simp_all add: y1_def)
  have a: "4 * a \<le> y1" unfolding a_def by (rule div_bounds) simp
  have b: "y1 < 100 * b + 100" unfolding b_def by (rule div_bounds) simp
  have c: "400 * c \<le> y1" unfolding c_def by (rule div_bounds) simp
  have ba: "b \<le> a" unfolding a_def b_def using y1(1) by (intro zdiv_mono2) simp_all
  have c0: "0 \<le> c" unfolding c_def using y1(1) by simp
  show "0 \<le> days_before_year y" using d y1 ba c0 by linarith
  show "days_before_year y \<le> 3651696" using d y1 a b c by linarith
  show "365 \<le> days_before_year y" if "2 \<le> y"
    using that d ba c0 by (simp add: y1_def)
  show "days_before_year y \<le> 3651331" if "y \<le> 9998"
    using that d a b c y1 by (simp add: y1_def)
qed

lemma mk_date_first:
  assumes "1 \<le> y" "y \<le> 9999" "1 \<le> m" "m \<le> 12"
  shows "mk_date y m 1 = Inr (ymd2ord y m 1)"
  using assms days_in_month_ge[OF assms(3,4), of y]
  by (simp add: mk_date_def MINYEAR_def MAXYEAR_def)

lemma mk_date_Inr:
  "mk_date y m d = Inr r \<Longrightarrow> 1 \<le> y \<and> y \<le> 9999 \<and> 1 \<le> m \<and> m \<le> 12 \<and> r = ymd2ord y m d"
  by (simp add: mk_date_def MINYEAR_def MAXYEAR_def split: if_splits)

lemma sunday_start:
  fixes fd :: int
  defines "s \<equiv> fd - (weekday fd + 1) mod 7"
  shows "weekday s = 6" "s \<le> fd" "fd < s + 7"
  unfolding s_def weekday_def by presburger+


lemma get_calendar_matrix_Inr:
  assumes "y = (case year_arg of None \<Rightarrow> dt_year now | Some v \<Rightarrow> v)"
      and "m = (case month_arg of None \<Rightarrow> dt_month now | Some v \<Rightarrow> v)"
      and "get_calendar_matrix now now_today evs year_arg month_arg = Inr r"
  shows "\<exists>fd ld sd all_events.
        mk_date y m 1 = Inr fd \<and> last_day_of y m = Inr ld
        \<and> date_add_days fd (- ((weekday fd + 1) mod 7)) = Inr sd
        \<and> build_weeks (mk_cell y m (date_of now_today) (events_by_date all_events)) 6 sd []
            = Inr (calendar_matrix r)"
proof -
  from assms(3) obtain fd where fd: "mk_date y m 1 = Inr fd"
    unfolding get_calendar_matrix_def assms(1,2)[symmetric] Let_def
    by (cases "mk_date y m 1") auto
  from assms(3) fd obtain ld where ld: "last_day_of y m = Inr ld"
    unfolding get_calendar_matrix_def assms(1,2)[symmetric] Let_def
    by (cases "last_day_of y m") auto
  from assms(3) fd ld obtain sd where sd: "date_add_days fd (- ((weekday fd + 1) mod 7)) = Inr sd"
    unfolding get_calendar_matrix_def assms(1,2)[symmetric] Let_def
    by (cases "date_add_days fd (- ((weekday fd + 1) mod 7))") auto
  let ?all = "get_events_for_month evs y m @
      (if date_month sd \<noteq> m \<or> date_year sd \<noteq> y
       then get_events_for_month evs (date_year sd) (date_month sd) else [])"
  from assms(3) fd ld sd
  have "build_weeks (mk_cell y m (date_of now_today) (events_by_date ?all)) 6 sd []
            = Inr (calendar_matrix r)"
    unfolding get_calendar_matrix_def assms(1,2)[symmetric] Let_def
    by (cases "build_weeks (mk_cell y m (date_of now_today) (events_by_date ?all)) 6 sd []")
      auto
  with fd ld sd show ?thesis by blast
qed

lemma last_day_of_ok:
  assumes "1 \<le> y" "y \<le> 9999" "1 \<le> m" "m \<le> 12" "(y, m) \<noteq> (9999, 12)"
  shows "\<exists>ld. last_day_of y m = Inr ld"
proof (cases "m = 12")
  case True
  with assms have y: "1 \<le> y + 1" "y + 1 \<le> 9999" by simp_all
  have f: "mk_date (y + 1) 1 1 = Inr (ymd2ord (y + 1) 1 1)" using y by (intro mk_date_first) simp_all
  have "0 \<le> days_before_month (y + 1) 1" by (rule days_before_month_bounds) simp_all
  moreover have "days_before_month (y + 1) 1 \<le> 335" by (rule days_before_month_bounds) simp_all
  moreover have "365 \<le> days_before_year (y + 1)" using y assms(1)
    by (intro days_before_year_bounds) simp_all
  moreover have "days_before_year (y + 1) \<le> 3651696" using y by (intro days_before_year_bounds)
  ultimately have "date_add_days (ymd2ord (y + 1) 1 1) (- 1) = Inr (ymd2ord (y + 1) 1 1 + - 1)"
    by (intro date_add_days_ok) (simp_all add: ymd2ord_def MAXORDINAL_def)
  with True f show ?thesis by (simp add: last_day_of_def)
next
  case False
  with assms have m: "1 \<le> m + 1" "m + 1 \<le> 12" "2 \<le> m + 1" by simp_all
  have f: "mk_date y (m + 1) 1 = Inr (ymd2ord y (m + 1) 1)"
    using assms(1,2) m by (intro mk_date_first)
  have "31 \<le> days_before_month y (m + 1)" using m by (intro days_before_month_bounds)
  moreover have "days_before_month y (m + 1) \<le> 335" using m by (intro days_before_month_bounds)
  moreover have "0 \<le> days_before_year y" using assms(1,2) by (intro days_before_year_bounds)
  moreover have "days_before_year y \<le> 3651696" using assms(1,2) by (intro days_before_year_bounds)
  ultimately have "date_add_days (ymd2ord y (m + 1) 1) (- 1) = Inr (ymd2ord y (m + 1) 1 + - 1)"
    by (intro date_add_days_ok) (simp_all add: ymd2ord_def MAXORDINAL_def)
  with False f show ?thesis by (simp add: last_day_of_def)
qed

lemma first_day_range:
  assumes "1 \<le> y" "y \<le> 9999" "1 \<le> m" "m \<le> 12" "(y, m) \<noteq> (1, 1)" "(y, m) \<noteq> (9999, 12)"
  shows "7 < ymd2ord y m 1" "ymd2ord y m 1 + 42 \<le> MAXORDINAL"
proof -
  have b: "0 \<le> days_before_month y m" "days_before_month y m \<le> 335"
    using assms(3,4) by (intro days_before_month_bounds; simp)+
  have c: "0 \<le> days_before_year y" "days_before_year y \<le> 3651696"
    using assms(1,2) by (intro days_before_year_bounds; simp)+
  show "7 < ymd2ord y m 1"
  proof (cases "2 \<le> y")
    case True
    then have "365 \<le> days_before_year y" using assms(1,2) by (intro days_before_year_bounds)
    with b show ?thesis by (simp add: ymd2ord_def)
  next
    case False
    with assms have "2 \<le> m" by auto
    then have "31 \<le> days_before_month y m" using assms(3,4) by (intro days_before_month_bounds)
    with c show ?thesis by (simp add: ymd2ord_def)
  qed
  show "ymd2ord y m 1 + 42 \<le> MAXORDINAL"
  proof (cases "y \<le> 9998")
    case True
    then have "days_before_year y \<le> 3651331" using assms(1,2) by (intro days_before_year_bounds)
    with b show ?thesis by (simp add: ymd2ord_def MAXORDINAL_def)
  next
    case False
    with assms have "m \<le> 11" by auto
    then have "days_before_month y m \<le> 305" using assms(3,4) by (intro days_before_month_bounds)
    with c show ?thesis by (simp add: ymd2ord_def MAXORDINAL_def)
  qed
qed

lemma get_calendar_matrix_returns:
  assumes y: "y = (case year_arg of None \<Rightarrow> dt_year now | Some v \<Rightarrow> v)"
      and m: "m = (case month_arg of None \<Rightarrow> dt_month now | Some v \<Rightarrow> v)"
      and r: "1 \<le> y" "y \<le> 9999" "1 \<le> m" "m \<le> 12" "(y, m) \<noteq> (1, 1)" "(y, m) \<noteq> (9999, 12)"
  shows "\<exists>r. get_calendar_matrix now now_today evs year_arg month_arg = Inr r"
proof -
  let ?fd = "ymd2ord y m 1"
  let ?sd = "?fd + - ((weekday ?fd + 1) mod 7)"
  have fd: "mk_date y m 1 = Inr ?fd" using r(1-4) by (rule mk_date_first)
  obtain ld where ld: "last_day_of y m = Inr ld" using last_day_of_ok[OF r(1-4) r(6)] by blast
  have w: "0 \<le> (weekday ?fd + 1) mod 7" "(weekday ?fd + 1) mod 7 < 7" by simp_all
  note fr = first_day_range[OF r]
  have sd: "date_add_days ?fd (- ((weekday ?fd + 1) mod 7)) = Inr ?sd"
    using w fr by (intro date_add_days_ok) simp_all
  have "\<And>f. \<exists>cal. build_weeks f 6 ?sd [] = Inr cal"
    using w fr by (intro build_weeks_ok) simp_all
  then have bw: "\<And>f e. build_weeks f 6 ?sd [] \<noteq> Inl e" by (metis Inl_Inr_False)
  show ?thesis
    unfolding get_calendar_matrix_def y[symmetric] m[symmetric] Let_def
    using bw by (simp add: fd ld sd split: sum.splits)
qed

lemma get_calendar_matrix_range:
  assumes y: "y = (case year_arg of None \<Rightarrow> dt_year now | Some v \<Rightarrow> v)"
      and m: "m = (case month_arg of None \<Rightarrow> dt_month now | Some v \<Rightarrow> v)"
      and g: "get_calendar_matrix now now_today evs year_arg month_arg = Inr r"
  shows "1 \<le> y \<and> y \<le> 9999 \<and> 1 \<le> m \<and> m \<le> 12 \<and> (y, m) \<noteq> (1, 1) \<and> (y, m) \<noteq> (9999, 12)"
proof -
  from get_calendar_matrix_Inr[OF y m g] obtain fd ld sd where
    fd: "mk_date y m 1 = Inr fd" and ld: "last_day_of y m = Inr ld"
    and sd: "date_add_days fd (- ((weekday fd + 1) mod 7)) = Inr sd" by blast
  from mk_date_Inr[OF fd] have b: "1 \<le> y" "y \<le> 9999" "1 \<le> m" "m \<le> 12" "fd = ymd2ord y m 1"
    by simp_all
  have "(y, m) \<noteq> (1, 1)"
  proof
    assume "(y, m) = (1, 1)"
    with b(5) have "fd = 1"
      by (simp add: ymd2ord_def days_before_year_def days_before_month_def DAYS_BEFORE_MONTH_def
          is_leap_def)
    with sd show False by (simp add: date_add_days_def weekday_def)
  qed
  moreover have "(y, m) \<noteq> (9999, 12)"
  proof
    assume "(y, m) = (9999, 12)"
    with ld show False by (simp add: last_day_of_def mk_date_def MAXYEAR_def MINYEAR_def)
  qed
  ultimately show ?thesis using b by simp
qed

lemma upt_7: "[0..<7] = [0, 1, 2, 3, 4, 5, 6]"
  by code_simp

lemma upt_6: "[0..<6] = [0, 1, 2, 3, 4, 5]"
  by code_simp

lemma upt_42: "[0..<42] = concat (map (\<lambda>w. map (\<lambda>i. 7 * w + i) [0..<7]) [0..<6])"
  by code_simp

lemma grid_shape:
  assumes "cal = map (\<lambda>w. map (\<lambda>i. f (sd + 7 * int w + int i)) [0..<7]) [0..<6]"
  shows "length cal = 6" "\<forall>week\<in>set cal. length week = 7" "length (concat cal) = 42"
    "map g (concat cal) = map (\<lambda>k. g (f (sd + int k))) [0..<42]"
    "\<forall>c\<in>set (concat cal). \<exists>d. c = f d"
proof -
  show "length cal = 6" by (simp add: assms)
  show "\<forall>week\<in>set cal. length week = 7" by (auto simp: assms)
  show "length (concat cal) = 42" unfolding assms upt_6 upt_7 by simp
  show "map g (concat cal) = map (\<lambda>k. g (f (sd + int k))) [0..<42]"
    unfolding assms upt_42 unfolding upt_6 upt_7 by (simp add: add.commute)
  show "\<forall>c\<in>set (concat cal). \<exists>d. c = f d" by (auto simp: assms)
qed

lemma mk_cell_fields:
  "cell_date (mk_cell y m today by_date d) = d"
  "is_today (mk_cell y m today by_date d) = (d = today)"
  by (simp_all add: mk_cell_def)

text \<open>
  Claim C8, for the year \<open>y\<close> and month \<open>m\<close> that the call resolves to (the arguments, or
  the clock's year and month for an argument left out). Whenever
  \<^verbatim>\<open>get_calendar_matrix\<close> returns, the grid has 6 rows of 7 cells, 42 in all; the dates
  of the cells, row after row, are the 42 consecutive dates from \<open>start_date\<close>, which is a
  Sunday (\<^verbatim>\<open>weekday()\<close> 6) on or before the first day of the month and less than a week
  before it; a cell marked \<open>is_today\<close> holds the date of the clock; and every event listed
  in a cell starts on the cell's date. The call returns exactly for the months 1 to 12
  of the years 1 to 9999 other than January of year 1 and December of year 9999, where
  the date arithmetic of Python leaves its range and raises.
\<close>

theorem get_calendar_matrix_grid:
  assumes y: "y = (case year_arg of None \<Rightarrow> dt_year now | Some v \<Rightarrow> v)"
      and m: "m = (case month_arg of None \<Rightarrow> dt_month now | Some v \<Rightarrow> v)"
  shows "((\<exists>r. get_calendar_matrix now now_today evs year_arg month_arg = Inr r)
            \<longleftrightarrow> (1 \<le> y \<and> y \<le> 9999 \<and> 1 \<le> m \<and> m \<le> 12 \<and> (y, m) \<noteq> (1, 1) \<and> (y, m) \<noteq> (9999, 12)))
     \<and> (\<forall>r. get_calendar_matrix now now_today evs year_arg month_arg = Inr r \<longrightarrow>
          (\<exists>first_day start_date. mk_date y m 1 = Inr first_day
             \<and> weekday start_date = 6 \<and> start_date \<le> first_day \<and> first_day < start_date + 7
             \<and> length (calendar_matrix r) = 6
             \<and> (\<forall>week\<in>set (calendar_matrix r). length week = 7)
             \<and> length (concat (calendar_matrix r)) = 42
             \<and> map cell_date (concat (calendar_matrix r)) = map (\<lambda>k. start_date + int k) [0..<42]
             \<and> (\<forall>c\<in>set (concat (calendar_matrix r)).
                  (is_today c \<longrightarrow> cell_date c = date_of now_today)
                  \<and> (\<forall>e\<in>set (cell_events c). date_of (start_time e) = cell_date c))))"
proof (intro conjI allI impI)
  show "(\<exists>r. get_calendar_matrix now now_today evs year_arg month_arg = Inr r)
            \<longleftrightarrow> (1 \<le> y \<and> y \<le> 9999 \<and> 1 \<le> m \<and> m \<le> 12 \<and> (y, m) \<noteq> (1, 1) \<and> (y, m) \<noteq> (9999, 12))"
    using get_calendar_matrix_range[OF y m] get_calendar_matrix_returns[OF y m] by blast
next
  fix r
  assume g: "get_calendar_matrix now now_today evs year_arg month_arg = Inr r"
  from get_calendar_matrix_Inr[OF y m g] obtain fd ld sd all_events where
    fd: "mk_date y m 1 = Inr fd"
    and sd: "date_add_days fd (- ((weekday fd + 1) mod 7)) = Inr sd"
    and bw: "build_weeks (mk_cell y m (date_of now_today) (events_by_date all_events)) 6 sd []
               = Inr (calendar_matrix r)"
    by blast
  let ?f = "mk_cell y m (date_of now_today) (events_by_date all_events)"
  from date_add_days_Inr[OF sd] have s: "sd = fd - (weekday fd + 1) mod 7" by simp
  from build_weeks_Inr[OF bw]
  have cal: "calendar_matrix r = map (\<lambda>w. map (\<lambda>i. ?f (sd + 7 * int w + int i)) [0..<7]) [0..<6]"
    by simp
  note shape = grid_shape[OF cal]
  have dates: "map cell_date (concat (calendar_matrix r)) = map (\<lambda>k. sd + int k) [0..<42]"
    using shape(4)[of cell_date] by (simp add: mk_cell_fields)
  have cells: "\<forall>c\<in>set (concat (calendar_matrix r)).
                  (is_today c \<longrightarrow> cell_date c = date_of now_today)
                  \<and> (\<forall>e\<in>set (cell_events c). date_of (start_time e) = cell_date c)"
  proof
    fix c
    assume "c \<in> set (concat (calendar_matrix r))"
    with shape(5) obtain d where "c = ?f d" by blast
    then show "(is_today c \<longrightarrow> cell_date c = date_of now_today)
                  \<and> (\<forall>e\<in>set (cell_events c). date_of (start_time e) = cell_date c)"
      by (simp add: mk_cell_fields cell_events_mk_cell)
  qed
  show "\<exists>first_day start_date. mk_date y m 1 = Inr first_day
             \<and> weekday start_date = 6 \<and> start_date \<le> first_day \<and> first_day < start_date + 7
             \<and> length (calendar_matrix r) = 6
             \<and> (\<forall>week\<in>set (calendar_matrix r). length week = 7)
             \<and> length (concat (calendar_matrix r)) = 42
             \<and> map cell_date (concat (calendar_matrix r)) = map (\<lambda>k. start_date + int k) [0..<42]
             \<and> (\<forall>c\<in>set (concat (calendar_matrix r)).
                  (is_today c \<longrightarrow> cell_date c = date_of now_today)
                  \<and> (\<forall>e\<in>set (cell_events c). date_of (start_time e) = cell_date c))"
    using fd sunday_start[of fd] shape(1,2,3) dates cells unfolding s[symmetric]
    by blast
qed

theorem get_calendar_matrix_grid_witness:
  "\<exists>r. get_calendar_matrix (combine example_day 8 0) (combine example_day 8 0) [ev_A, ev_B]
          (Some 2024) (Some 3) = Inr r
       \<and> length (concat (calendar_matrix r)) = 42
       \<and> map cell_date (concat (calendar_matrix r)) = map (\<lambda>k. 738941 + int k) [0..<42]"
proof -
  have d: "mk_date 2024 3 1 = Inr 738946"
    by (simp add: mk_date_def MINYEAR_def MAXYEAR_def days_in_month_def DAYS_IN_MONTH_def
        ymd2ord_def days_before_year_def days_before_month_def DAYS_BEFORE_MONTH_def is_leap_def)
  note t = get_calendar_matrix_grid[where y = 2024 and year_arg = "Some 2024" and m = 3
      and month_arg = "Some 3" and now = "combine example_day 8 0"
      and now_today = "combine example_day 8 0" and evs = "[ev_A, ev_B]"]
  from t obtain r where r: "get_calendar_matrix (combine example_day 8 0) (combine example_day 8 0)
      [ev_A, ev_B] (Some 2024) (Some 3) = Inr r" by auto
  with t obtain sd where "weekday sd = 6" "sd \<le> 738946" "738946 < sd + 7"
     "length (concat (calendar_matrix r)) = 42"
     "map cell_date (concat (calendar_matrix r)) = map (\<lambda>k. sd + int k) [0..<42]"
    using d by auto
  moreover from this(1-3) have "sd = 738941" unfolding weekday_def by presburger
  ultimately show ?thesis using r by blast
qed

section \<open>Properties of the date functions\<close>

lemma month_day_correct:
  assumes "0 \<le> n" "n \<le> 364"
  shows "case month_day L n of (m, d) \<Rightarrow>
           1 \<le> m \<and> m \<le> 12 \<and> 1 \<le> d
           \<and> d \<le> (if m = 2 \<and> L then 29 else DAYS_IN_MONTH ! nat m)
           \<and> DAYS_BEFORE_MONTH ! nat m + (if m > 2 \<and> L then 1 else 0) + d = n + 1"
proof -
  define k where "k = (n + 50) div 32"
  have b: "32 * k \<le> n + 50" "n + 50 < 32 * k + 32"
    unfolding k_def by (rule div_bounds, simp)+
  with assms have "1 \<le> k" "k \<le> 12" by linarith+
  from month_cases[OF this] consider "k = 1" | "k = 2" | "k = 3" | "k = 4" | "k = 5" | "k = 6" | "k = 7" | "k = 8"
    | "k = 9" | "k = 10" | "k = 11" | "k = 12" by blast
  then show ?thesis
  proof cases
    case 1
    with b assms show ?thesis
      by (simp add: month_day_def k_def[symmetric] Let_def DAYS_BEFORE_MONTH_def DAYS_IN_MONTH_def)
  next
    case 2
    with b assms show ?thesis
      by (simp add: month_day_def k_def[symmetric] Let_def DAYS_BEFORE_MONTH_def DAYS_IN_MONTH_def)
  next
    case 3
    with b assms show ?thesis
      by (simp add: month_day_def k_def[symmetric] Let_def DAYS_BEFORE_MONTH_def DAYS_IN_MONTH_def)
  next
    case 4
    with b assms show ?thesis
      by (simp add: month_day_def k_def[symmetric] Let_def DAYS_BEFORE_MONTH_def DAYS_IN_MONTH_def)
  next
    case 5
    with b assms show ?thesis
      by (simp add: month_day_def k_def[symmetric] Let_def DAYS_BEFORE_MONTH_def DAYS_IN_MONTH_def)
  next
    case 6
    with b assms show ?thesis
      by (simp add: month_day_def k_def[symmetric] Let_def DAYS_BEFORE_MONTH_def DAYS_IN_MONTH_def)
  next
    case 7
    with b assms show ?thesis
      by (simp add: month_day_def k_def[symmetric] Let_def DAYS_BEFORE_MONTH_def DAYS_IN_MONTH_def)
  next
    case 8
    with b assms show ?thesis
      by (simp add: month_day_def k_def[symmetric] Let_def DAYS_BEFORE_MONTH_def DAYS_IN_MONTH_def)
  next
    case 9
    with b assms show ?thesis
      by (simp add: month_day_def k_def[symmetric] Let_def DAYS_BEFORE_MONTH_def DAYS_IN_MONTH_def)
  next
    case 10
    with b assms show ?thesis
      by (simp add: month_day_def k_def[symmetric] Let_def DAYS_BEFORE_MONTH_def DAYS_IN_MONTH_def)
  next
    case 11
    with b assms show ?thesis
      by (simp add: month_day_def k_def[symmetric] Let_def DAYS_BEFORE_MONTH_def DAYS_IN_MONTH_def)
  next
    case 12
    with b assms show ?thesis
      by (simp add: month_day_def k_def[symmetric] Let_def DAYS_BEFORE_MONTH_def DAYS_IN_MONTH_def)
  qed
qed

lemma year_digits:
  fixes a b c d :: int
  assumes "0 \<le> b" "b \<le> 3" "0 \<le> c" "c \<le> 24" "0 \<le> d" "d \<le> 3"
  shows "days_before_year (400 * a + 100 * b + 4 * c + d + 1)
           = 146097 * a + 36524 * b + 1461 * c + 365 * d"
proof -
  let ?Y1 = "400 * a + 100 * b + 4 * c + d"
  have q4: "?Y1 div 4 = 100 * a + 25 * b + c"
    using assms by (intro int_div_pos_eq[where r = d]) simp_all
  have q100: "?Y1 div 100 = 4 * a + b"
    using assms by (intro int_div_pos_eq[where r = "4 * c + d"]) simp_all
  have q400: "?Y1 div 400 = a"
    using assms by (intro int_div_pos_eq[where r = "100 * b + 4 * c + d"]) simp_all
  show ?thesis
    unfolding days_before_year_def Let_def using q4 q100 q400 by simp
qed

lemma leap_digits:
  fixes a b c d :: int
  assumes "0 \<le> b" "b \<le> 3" "0 \<le> c" "c \<le> 24" "0 \<le> d" "d \<le> 3"
  shows "is_leap (400 * a + 100 * b + 4 * c + d + 1) = (d = 3 \<and> (c \<noteq> 24 \<or> b = 3))"
proof -
  let ?Y = "400 * a + 100 * b + 4 * c + d + 1"
  have m4: "(?Y mod 4 = 0) = (d = 3)"
  proof (cases "d = 3")
    case True
    have "?Y mod 4 = 0"
      using True by (intro int_mod_pos_eq[where q = "100 * a + 25 * b + c + 1"]) simp_all
    with True show ?thesis by simp
  next
    case False
    have "?Y mod 4 = d + 1"
      using False assms by (intro int_mod_pos_eq[where q = "100 * a + 25 * b + c"]) simp_all
    with False assms show ?thesis by simp
  qed
  have m100: "(?Y mod 100 = 0) = (c = 24 \<and> d = 3)"
  proof (cases "c = 24 \<and> d = 3")
    case True
    have "?Y mod 100 = 0"
      using True by (intro int_mod_pos_eq[where q = "4 * a + b + 1"]) simp_all
    with True show ?thesis by simp
  next
    case False
    have "?Y mod 100 = 4 * c + d + 1"
      using False assms by (intro int_mod_pos_eq[where q = "4 * a + b"]) auto
    with False assms show ?thesis by auto
  qed
  have m400: "(?Y mod 400 = 0) = (b = 3 \<and> c = 24 \<and> d = 3)"
  proof (cases "b = 3 \<and> c = 24 \<and> d = 3")
    case True
    have "?Y mod 400 = 0"
      using True by (intro int_mod_pos_eq[where q = "a + 1"]) simp_all
    with True show ?thesis by simp
  next
    case False
    have "?Y mod 400 = 100 * b + 4 * c + d + 1"
      using False assms by (intro int_mod_pos_eq[where q = a]) auto
    with False assms show ?thesis by auto
  qed
  show ?thesis unfolding is_leap_def m4 m100 m400 by auto
qed

lemma ord2ymd_correct:
  assumes "1 \<le> n0" "n0 \<le> MAXORDINAL"
  shows "case ord2ymd n0 of (y, m, d) \<Rightarrow>
           1 \<le> y \<and> y \<le> 9999 \<and> 1 \<le> m \<and> m \<le> 12 \<and> 1 \<le> d \<and> d \<le> days_in_month y m
           \<and> ymd2ord y m d = n0"
proof -
  define n where "n = n0 - 1"
  define n400 where "n400 = n div 146097"
  define r1 where "r1 = n mod 146097"
  define n100 where "n100 = r1 div 36524"
  define r2 where "r2 = r1 mod 36524"
  define n4 where "n4 = r2 div 1461"
  define r3 where "r3 = r2 mod 1461"
  define n1 where "n1 = r3 div 365"
  define r4 where "r4 = r3 mod 365"
  define y where "y = n400 * 400 + 1 + n100 * 100 + n4 * 4 + n1"
  define L where "L = (n1 = 3 \<and> (n4 \<noteq> 24 \<or> n100 = 3))"
  have o: "ord2ymd n0 = (if n1 = 4 \<or> n100 = 4 then (y - 1, 12, 31)
                         else (case month_day L r4 of (m, d) \<Rightarrow> (y, m, d)))"
    by (simp add: ord2ymd_def Let_def n_def n400_def r1_def n100_def r2_def n4_def r3_def
        n1_def r4_def y_def L_def)
  have n: "0 \<le> n" "n \<le> 3652058" using assms by (simp_all add: n_def MAXORDINAL_def)
  have e1: "n = 146097 * n400 + r1" "0 \<le> r1" "r1 < 146097"
    by (simp_all add: n400_def r1_def)
  have e2: "r1 = 36524 * n100 + r2" "0 \<le> r2" "r2 < 36524"
    by (simp_all add: n100_def r2_def)
  have e3: "r2 = 1461 * n4 + r3" "0 \<le> r3" "r3 < 1461"
    by (simp_all add: n4_def r3_def)
  have e4: "r3 = 365 * n1 + r4" "0 \<le> r4" "r4 < 365"
    by (simp_all add: n1_def r4_def)
  have b400: "0 \<le> n400" unfolding n400_def using n(1) by (simp add: pos_imp_zdiv_nonneg_iff)
  have b100: "0 \<le> n100" unfolding n100_def using e1(2) by (simp add: pos_imp_zdiv_nonneg_iff)
  have b100u: "n100 \<le> 4" using e1(3) e2(1,2) by linarith
  have b4: "0 \<le> n4" unfolding n4_def using e2(2) by (simp add: pos_imp_zdiv_nonneg_iff)
  have b4u: "n4 \<le> 24" using e2(3) e3(1,2) by linarith
  have b1: "0 \<le> n1" unfolding n1_def using e3(2) by (simp add: pos_imp_zdiv_nonneg_iff)
  have b1u: "n1 \<le> 4" using e3(3) e4(1,2) by linarith
  show ?thesis
  proof (cases "n100 = 4")
    case True
    from True e1(3) e2 have r: "r2 = 0" "r1 = 146096" by linarith+
    have "n4 = 0" by (simp add: n4_def r(1))
    moreover have "r3 = 0" by (simp add: r3_def r(1))
    then have "n1 = 0" by (simp add: n1_def)
    ultimately have z: "n4 = 0" "n1 = 0" by simp_all
    have yy: "y - 1 = 400 * n400 + 100 * 3 + 4 * 24 + 3 + 1" using True z by (simp add: y_def)
    have d: "days_before_year (y - 1) = 146097 * n400 + 36524 * 3 + 1461 * 24 + 365 * 3"
      unfolding yy by (rule year_digits) simp_all
    have l: "is_leap (y - 1)" unfolding yy by (subst leap_digits) simp_all
    have "n400 \<le> 23" using e1(1) r(2) n(2) by linarith
    then have "1 \<le> y - 1" "y - 1 \<le> 9999" using b400 yy by linarith+
    moreover have "ymd2ord (y - 1) 12 31 = n0"
      using d l e1 r by (simp add: ymd2ord_def days_before_month_def DAYS_BEFORE_MONTH_def n_def)
    moreover have "days_in_month (y - 1) 12 = 31"
      by (simp add: days_in_month_def DAYS_IN_MONTH_def)
    ultimately show ?thesis using True by (simp add: o)
  next
    case n100: False
    with b100u have b100': "n100 \<le> 3" by simp
    show ?thesis
    proof (cases "n1 = 4")
      case True
      from True e3(3) e4 have r: "r3 = 1460" "r4 = 0" by linarith+
      from r(1) e2(3) e3(1) have n4': "n4 \<le> 23" by linarith
      have yy: "y - 1 = 400 * n400 + 100 * n100 + 4 * n4 + 3 + 1" using True by (simp add: y_def)
      have d: "days_before_year (y - 1) = 146097 * n400 + 36524 * n100 + 1461 * n4 + 365 * 3"
        unfolding yy using b100 b100' b4 b4u by (intro year_digits) simp_all
      have "is_leap (y - 1) = (3 = (3::int) \<and> (n4 \<noteq> 24 \<or> n100 = 3))"
        unfolding yy using b100 b100' b4 b4u by (intro leap_digits) simp_all
      with n4' have l: "is_leap (y - 1)" by simp
      have nn: "n = 146097 * n400 + 36524 * n100 + 1461 * n4 + 1460"
        using e1(1) e2(1) e3(1) r(1) by linarith
      have "y - 1 \<le> 9999" using nn n(2) b400 b100 b100' b4 n4' yy by linarith
      moreover have "1 \<le> y - 1" using b400 b100 b4 yy by linarith
      moreover have "ymd2ord (y - 1) 12 31 = n0"
        using d l nn by (simp add: ymd2ord_def days_before_month_def DAYS_BEFORE_MONTH_def n_def)
      moreover have "days_in_month (y - 1) 12 = 31"
        by (simp add: days_in_month_def DAYS_IN_MONTH_def)
      ultimately show ?thesis using True by (simp add: o)
    next
      case False
      with b1u have b1': "n1 \<le> 3" by simp
      have yy: "y = 400 * n400 + 100 * n100 + 4 * n4 + n1 + 1" by (simp add: y_def)
      have d: "days_before_year y = 146097 * n400 + 36524 * n100 + 1461 * n4 + 365 * n1"
        unfolding yy using b100 b100' b4 b4u b1 b1' by (intro year_digits) simp_all
      have l: "is_leap y = L"
        unfolding yy L_def using b100 b100' b4 b4u b1 b1' by (intro leap_digits) simp_all
      have nn: "n = days_before_year y + r4" using e1(1) e2(1) e3(1) e4(1) d by linarith
      have "146097 * n400 + 36524 * n100 + 1461 * n4 + 365 * n1 \<le> 3652058"
        using nn d n(2) e4(2) by linarith
      then have "y \<le> 9999" using b400 b100 b100' b4 b4u b1 b1' yy by linarith
      moreover have "1 \<le> y" using b400 b100 b4 b1 yy by linarith
      moreover obtain m dd where md: "month_day L r4 = (m, dd)" by (cases "month_day L r4")
      moreover from month_day_correct[of r4 L] e4 md
      have "1 \<le> m \<and> m \<le> 12 \<and> 1 \<le> dd
           \<and> dd \<le> (if m = 2 \<and> L then 29 else DAYS_IN_MONTH ! nat m)
           \<and> DAYS_BEFORE_MONTH ! nat m + (if m > 2 \<and> L then 1 else 0) + dd = r4 + 1"
        by simp
      ultimately show ?thesis using False n100 nn l
        by (simp add: o ymd2ord_def days_before_month_def days_in_month_def n_def)
    qed
  qed
qed

section \<open>Properties of the ISO format\<close>

text \<open>Writing a number with leading zeros and reading it back.\<close>

lemma digit_val_digit_char: "d < 10 \<Longrightarrow> digit_val (digit_char d) = Some d"
  by (simp add: digit_val_def digit_char_def Let_def)

lemma parse_digits_append:
  "parse_digits acc (xs @ ys) =
     (case parse_digits acc xs of None \<Rightarrow> None | Some a \<Rightarrow> parse_digits a ys)"
  by (induction xs arbitrary: acc) (auto split: option.splits)

lemma length_zero_padded: "length (zero_padded k n) = k"
  by (induction k arbitrary: n) simp_all

lemma parse_zero_padded:
  "n < 10 ^ k \<Longrightarrow> parse_digits acc (zero_padded k n) = Some (acc * 10 ^ k + n)"
proof (induction k arbitrary: n)
  case 0
  then show ?case by simp
next
  case (Suc k)
  from Suc.prems have "n div 10 < 10 ^ k" by (simp add: less_mult_imp_div_less mult.commute)
  from Suc.IH[OF this]
  have "parse_digits acc (zero_padded k (n div 10)) = Some (acc * 10 ^ k + n div 10)" .
  moreover have "(acc * 10 ^ k + n div 10) * 10 + n mod 10 = acc * 10 ^ Suc k + n"
    by (simp add: algebra_simps)
  ultimately show ?case
    by (simp add: parse_digits_append digit_val_digit_char)
qed

lemma iso_shape:
  fixes A B C D E F G :: string
  assumes "length A = 4" "length B = 2" "length C = 2" "length D = 2" "length E = 2" "length F = 2"
  defines "s \<equiv> A @ ''-'' @ B @ ''-'' @ C @ ''T'' @ D @ '':'' @ E @ '':'' @ F @ G"
  shows "length s = 19 + length G" "s ! 4 = CHR ''-''" "s ! 7 = CHR ''-''" "s ! 13 = CHR '':''"
    "s ! 16 = CHR '':''" "take 4 s = A" "take 2 (drop 5 s) = B" "take 2 (drop 8 s) = C"
    "take 2 (drop 11 s) = D" "take 2 (drop 14 s) = E" "take 2 (drop 17 s) = F" "drop 19 s = G"
    "s ! 10 = CHR ''T''"
  using assms(1-6) unfolding s_def by (simp_all add: nth_append)

lemma iso_shape_fraction:
  fixes A B C D E F U :: string
  assumes "length A = 4" "length B = 2" "length C = 2" "length D = 2" "length E = 2" "length F = 2"
  defines "s \<equiv> A @ ''-'' @ B @ ''-'' @ C @ ''T'' @ D @ '':'' @ E @ '':'' @ F @ ''.'' @ U"
  shows "s ! 19 = CHR ''.''" "drop 20 s = U"
  using assms(1-6) unfolding s_def by (simp_all add: nth_append)

lemma time_split:
  fixes r :: int
  assumes "0 \<le> r" "r < 86400000000"
  defines "hh \<equiv> r div 3600000000"
    and "mm \<equiv> (r mod 3600000000) div 60000000"
    and "ss \<equiv> (r mod 60000000) div 1000000"
    and "us \<equiv> r mod 1000000"
  shows "0 \<le> hh" "hh \<le> 23" "0 \<le> mm" "mm \<le> 59" "0 \<le> ss" "ss \<le> 59" "0 \<le> us" "us \<le> 999999"
    "hh * 3600000000 + mm * 60000000 + ss * 1000000 + us = r"
proof -
  have h: "r = 3600000000 * hh + r mod 3600000000" by (simp add: hh_def)
  have hb: "0 \<le> r mod 3600000000" "r mod 3600000000 < 3600000000" by simp_all
  have m: "r mod 3600000000 = 60000000 * mm + (r mod 3600000000) mod 60000000"
    by (simp add: mm_def)
  have "(r mod 3600000000) mod 60000000 = r mod 60000000"
    by (rule mod_mod_cancel) simp
  with m have m': "r mod 3600000000 = 60000000 * mm + r mod 60000000" by simp
  have mb: "0 \<le> r mod 60000000" "r mod 60000000 < 60000000" by simp_all
  have s: "r mod 60000000 = 1000000 * ss + (r mod 60000000) mod 1000000"
    by (simp add: ss_def)
  have "(r mod 60000000) mod 1000000 = r mod 1000000"
    by (rule mod_mod_cancel) simp
  with s have s': "r mod 60000000 = 1000000 * ss + us" by (simp add: us_def)
  have ub: "0 \<le> us" "us < 1000000" by (simp_all add: us_def)
  show "0 \<le> hh" using assms(1) by (simp add: hh_def pos_imp_zdiv_nonneg_iff)
  show "hh \<le> 23" using h hb assms(2) by linarith
  show "0 \<le> mm" using hb(1) by (simp add: mm_def pos_imp_zdiv_nonneg_iff)
  show "mm \<le> 59" using m' mb hb(2) by linarith
  show "0 \<le> ss" using mb(1) by (simp add: ss_def pos_imp_zdiv_nonneg_iff)
  show "ss \<le> 59" using s' ub mb(2) by linarith
  show "0 \<le> us" by (rule ub)
  show "us \<le> 999999" using ub(2) by simp
  show "hh * 3600000000 + mm * 60000000 + ss * 1000000 + us = r"
    using h m' s' by linarith
qed

lemma parse_padded_int:
  assumes "0 \<le> v" "v < 10 ^ k"
  shows "parse_digits 0 (zero_padded k (nat v)) = Some (nat v)"
proof -
  have "nat v < 10 ^ k" using assms by (simp add: nat_less_iff)
  from parse_zero_padded[OF this, of 0] show ?thesis by simp
qed

lemma fromisoformat_isoformat:
  assumes "0 \<le> t" "t \<le> dt_max"
  shows "fromisoformat (isoformat t) = Inr t"
    and "length (isoformat t) = 19 \<or> length (isoformat t) = 26"
    and "isoformat t ! 4 = CHR ''-'' \<and> isoformat t ! 7 = CHR ''-'' \<and> isoformat t ! 10 = CHR ''T''
         \<and> isoformat t ! 13 = CHR '':'' \<and> isoformat t ! 16 = CHR '':''"
proof -
  define n0 where "n0 = date_of t"
  define r where "r = t mod 86400000000"
  define hh where "hh = r div 3600000000"
  define mm where "mm = (r mod 3600000000) div 60000000"
  define ss where "ss = (r mod 60000000) div 1000000"
  define us where "us = r mod 1000000"
  have t: "t = 86400000000 * (t div 86400000000) + r" by (simp add: r_def)
  have rb: "0 \<le> r" "r < 86400000000" by (simp_all add: r_def)
  have q: "0 \<le> t div 86400000000" using assms(1) by (simp add: pos_imp_zdiv_nonneg_iff)
  have "t \<le> 3652059 * 86400000000 - 1"
    using assms(2) by (simp add: dt_max_def MAXORDINAL_def us_per_day_def)
  with t rb have "t div 86400000000 < 3652059" by linarith
  with q have n0: "1 \<le> n0" "n0 \<le> MAXORDINAL"
    by (simp_all add: n0_def date_of_def us_per_day_def MAXORDINAL_def)
  obtain y m d where o: "ord2ymd n0 = (y, m, d)" by (cases "ord2ymd n0")
  from ord2ymd_correct[OF n0] o
  have c: "1 \<le> y" "y \<le> 9999" "1 \<le> m" "m \<le> 12" "1 \<le> d" "d \<le> days_in_month y m"
    "ymd2ord y m d = n0" by simp_all
  have "days_in_month y m \<le> 31"
    using month_cases[OF c(3,4)] by (auto simp: days_in_month_def DAYS_IN_MONTH_def)
  with c(6) have d31: "d \<le> 31" by simp
  note ts = time_split[OF rb, folded hh_def mm_def ss_def us_def]
  define A where "A = zero_padded 4 (nat y)"
  define B where "B = zero_padded 2 (nat m)"
  define C where "C = zero_padded 2 (nat d)"
  define D where "D = zero_padded 2 (nat hh)"
  define E where "E = zero_padded 2 (nat mm)"
  define F where "F = zero_padded 2 (nat ss)"
  define U where "U = zero_padded 6 (nat us)"
  have len: "length A = 4" "length B = 2" "length C = 2" "length D = 2" "length E = 2"
    "length F = 2" "length U = 6"
    by (simp_all add: A_def B_def C_def D_def E_def F_def U_def length_zero_padded)
  have pA: "parse_digits 0 A = Some (nat y)" unfolding A_def using c(1,2)
    by (intro parse_padded_int) simp_all
  have pB: "parse_digits 0 B = Some (nat m)" unfolding B_def using c(3,4)
    by (intro parse_padded_int) simp_all
  have pC: "parse_digits 0 C = Some (nat d)" unfolding C_def using c(5) d31
    by (intro parse_padded_int) simp_all
  have pD: "parse_digits 0 D = Some (nat hh)" unfolding D_def using ts(1,2)
    by (intro parse_padded_int) simp_all
  have pE: "parse_digits 0 E = Some (nat mm)" unfolding E_def using ts(3,4)
    by (intro parse_padded_int) simp_all
  have pF: "parse_digits 0 F = Some (nat ss)" unfolding F_def using ts(5,6)
    by (intro parse_padded_int) simp_all
  have pU: "parse_digits 0 U = Some (nat us)" unfolding U_def using ts(7,8)
    by (intro parse_padded_int) simp_all
  define G where "G = (if us = 0 then [] else ''.'' @ U)"
  define s where "s = A @ ''-'' @ B @ ''-'' @ C @ ''T'' @ D @ '':'' @ E @ '':'' @ F @ G"
  have iso: "isoformat t = s"
    by (simp add: isoformat_def Let_def o[unfolded n0_def] us_per_day_def us_per_hour_def
        us_per_minute_def us_per_second_def A_def B_def C_def D_def E_def F_def U_def G_def
        s_def hh_def mm_def ss_def us_def r_def)
  note sh = iso_shape[OF len(1-6), of G, folded s_def]
  have mk: "mk_datetime y m d hh mm ss us = Inr t"
  proof -
    have "mk_date y m d = Inr n0"
      using c by (simp add: mk_date_def MINYEAR_def MAXYEAR_def)
    moreover have "(n0 - 1) * 86400000000 + hh * 3600000000 + mm * 60000000 + ss * 1000000 + us = t"
      using ts(9) t by (simp add: n0_def date_of_def us_per_day_def)
    ultimately show ?thesis
      using ts(1-8)
      by (simp add: mk_datetime_def us_per_day_def us_per_hour_def us_per_minute_def
          us_per_second_def)
  qed
  have nn: "0 \<le> y" "0 \<le> m" "0 \<le> d" using c(1,3,5) by simp_all
  have parsed: "parse_digits 0 (take 4 s) = Some (nat y)"
    "parse_digits 0 (take 2 (drop 5 s)) = Some (nat m)"
    "parse_digits 0 (take 2 (drop 8 s)) = Some (nat d)"
    "parse_digits 0 (take 2 (drop 11 s)) = Some (nat hh)"
    "parse_digits 0 (take 2 (drop 14 s)) = Some (nat mm)"
    "parse_digits 0 (take 2 (drop 17 s)) = Some (nat ss)"
    by (simp_all only: sh pA pB pC pD pE pF)
  have marks: "s ! 4 = CHR ''-'' \<and> s ! 7 = CHR ''-'' \<and> s ! 13 = CHR '':'' \<and> s ! 16 = CHR '':''"
    by (simp only: sh)
  have tail: "(length s = 19 \<or> (length s = 26 \<and> s ! 19 = CHR ''.''))
              \<and> parse_digits 0 (drop 20 s) = Some (nat us)"
  proof (cases "us = 0")
    case True
    then have "length s = 19" using sh(1) by (simp add: G_def)
    moreover from this have "drop 20 s = []" by simp
    ultimately show ?thesis using True by simp
  next
    case False
    then have g: "drop 19 s = ''.'' @ U" using sh(12) by (simp add: G_def)
    have l: "length s = 26" using sh(1) False len(7) by (simp add: G_def)
    have "s ! 19 = hd (drop 19 s)" using l by (simp add: hd_drop_conv_nth)
    then have "s ! 19 = CHR ''.''" by (simp add: g)
    moreover have "drop 20 s = drop 1 (drop 19 s)" by simp
    then have "drop 20 s = U" by (simp add: g)
    ultimately show ?thesis using l pU by simp
  qed
  have "fromisoformat s = mk_datetime (int (nat y)) (int (nat m)) (int (nat d)) (int (nat hh))
      (int (nat mm)) (int (nat ss)) (int (nat us))"
    unfolding fromisoformat_def using marks tail by (simp add: parsed)
  also have "\<dots> = mk_datetime y m d hh mm ss us"
    using nn ts(1,3,5,7) by simp
  finally show "fromisoformat (isoformat t) = Inr t" using mk iso by simp
  show "length (isoformat t) = 19 \<or> length (isoformat t) = 26"
    unfolding iso using tail by blast
  show "isoformat t ! 4 = CHR ''-'' \<and> isoformat t ! 7 = CHR ''-'' \<and> isoformat t ! 10 = CHR ''T''
         \<and> isoformat t ! 13 = CHR '':'' \<and> isoformat t ! 16 = CHR '':''"
    unfolding iso using marks sh(13) by blast
qed

subsection \<open>C7: the round trip through the file format\<close>

lemma from_dict_to_dict:
  assumes "0 \<le> start_time e" "start_time e \<le> dt_max" "0 \<le> end_time e" "end_time e \<le> dt_max"
    "0 \<le> created_at e" "created_at e \<le> dt_max" "\<not> to_dict_hidden e" "fields_attr e = None"
  shows "to_dict e = Inr (Event_object
            \<lparr>d_id = id' e, d_title = title e, d_description = description e,
             d_start_time = isoformat (start_time e), d_end_time = isoformat (end_time e),
             d_location = location e, d_attendees = attendees e,
             d_reminder_minutes = reminder_minutes e, d_is_all_day = is_all_day e,
             d_recurrence = recurrence e, d_created_at = isoformat (created_at e)\<rparr>)"
    and "\<exists>d. to_dict e = Inr d \<and> from_dict d = Inr e"
proof -
  show t: "to_dict e = Inr (Event_object
            \<lparr>d_id = id' e, d_title = title e, d_description = description e,
             d_start_time = isoformat (start_time e), d_end_time = isoformat (end_time e),
             d_location = location e, d_attendees = attendees e,
             d_reminder_minutes = reminder_minutes e, d_is_all_day = is_all_day e,
             d_recurrence = recurrence e, d_created_at = isoformat (created_at e)\<rparr>)"
    using assms(7,8) by (simp add: to_dict_def)
  have "from_dict (Event_object
            \<lparr>d_id = id' e, d_title = title e, d_description = description e,
             d_start_time = isoformat (start_time e), d_end_time = isoformat (end_time e),
             d_location = location e, d_attendees = attendees e,
             d_reminder_minutes = reminder_minutes e, d_is_all_day = is_all_day e,
             d_recurrence = recurrence e, d_created_at = isoformat (created_at e)\<rparr>) = Inr e"
    using assms(7,8)
    by (simp add: fromisoformat_isoformat(1)[OF assms(1,2)] fromisoformat_isoformat(1)[OF assms(3,4)]
        fromisoformat_isoformat(1)[OF assms(5,6)])
  with t show "\<exists>d. to_dict e = Inr d \<and> from_dict d = Inr e" by simp
qed

lemma from_dicts_to_dicts:
  assumes "\<forall>e\<in>set evs. 0 \<le> start_time e \<and> start_time e \<le> dt_max
             \<and> 0 \<le> end_time e \<and> end_time e \<le> dt_max
             \<and> 0 \<le> created_at e \<and> created_at e \<le> dt_max
             \<and> \<not> to_dict_hidden e \<and> fields_attr e = None"
  shows "\<exists>ds. to_dicts evs = Inr ds \<and> from_dicts ds = Inr evs"
  using assms
proof (induction evs)
  case Nil
  show ?case by simp
next
  case (Cons e evs)
  from Cons.prems have "\<exists>d. to_dict e = Inr d \<and> from_dict d = Inr e"
    by (intro from_dict_to_dict(2)) simp_all
  then obtain d where d: "to_dict e = Inr d" "from_dict d = Inr e" by blast
  from Cons.IH Cons.prems obtain ds where ds: "to_dicts evs = Inr ds" "from_dicts ds = Inr evs"
    by auto
  from d ds show ?case by simp
qed

text \<open>
  Claim C7: for every collection of events (events as the constructor and
  \<^verbatim>\<open>from_dict\<close> make them: datetimes of Python's range, no instance attribute hiding
  \<^verbatim>\<open>to_dict\<close> or the table of fields), \<^verbatim>\<open>to_dict\<close> serializes every event, with the
  three datetimes as strings \<^verbatim>\<open>YYYY-MM-DDTHH:MM:SS\<close> of 19 characters, or of 26 with
  the microseconds, so without an offset; \<^verbatim>\<open>from_dict\<close> makes of the dictionaries the
  events that were serialized, each datetime read back exactly; and loading what a
  successful save wrote gives the saved events.
\<close>

theorem event_round_trip:
  assumes "\<forall>e\<in>set evs. 0 \<le> start_time e \<and> start_time e \<le> dt_max
             \<and> 0 \<le> end_time e \<and> end_time e \<le> dt_max
             \<and> 0 \<le> created_at e \<and> created_at e \<le> dt_max
             \<and> \<not> to_dict_hidden e \<and> fields_attr e = None"
  shows "(\<exists>ds. to_dicts evs = Inr ds \<and> from_dicts ds = Inr evs)
     \<and> (\<forall>e\<in>set evs.
          to_dict e = Inr (Event_object
            \<lparr>d_id = id' e, d_title = title e, d_description = description e,
             d_start_time = isoformat (start_time e), d_end_time = isoformat (end_time e),
             d_location = location e, d_attendees = attendees e,
             d_reminder_minutes = reminder_minutes e, d_is_all_day = is_all_day e,
             d_recurrence = recurrence e, d_created_at = isoformat (created_at e)\<rparr>)
          \<and> (\<forall>t\<in>{start_time e, end_time e, created_at e}.
                fromisoformat (isoformat t) = Inr t
                \<and> (length (isoformat t) = 19 \<or> length (isoformat t) = 26)
                \<and> isoformat t ! 4 = CHR ''-'' \<and> isoformat t ! 7 = CHR ''-''
                \<and> isoformat t ! 10 = CHR ''T'' \<and> isoformat t ! 13 = CHR '':''
                \<and> isoformat t ! 16 = CHR '':''))
     \<and> (write_result io = Written \<longrightarrow>
          events (load_events (save_events io \<lparr>events = evs, data_file = file\<rparr>)) = evs)"
proof (intro conjI ballI impI)
  from from_dicts_to_dicts[OF assms] obtain ds where
    ds: "to_dicts evs = Inr ds" "from_dicts ds = Inr evs" by blast
  then show "\<exists>ds. to_dicts evs = Inr ds \<and> from_dicts ds = Inr evs" by blast
  assume "write_result io = Written"
  with ds show "events (load_events (save_events io \<lparr>events = evs, data_file = file\<rparr>)) = evs"
    by (simp add: save_events_def load_events_def)
next
  fix e assume e: "e \<in> set evs"
  with assms have v: "0 \<le> start_time e" "start_time e \<le> dt_max" "0 \<le> end_time e"
    "end_time e \<le> dt_max" "0 \<le> created_at e" "created_at e \<le> dt_max"
    "\<not> to_dict_hidden e" "fields_attr e = None" by auto
  show "to_dict e = Inr (Event_object
            \<lparr>d_id = id' e, d_title = title e, d_description = description e,
             d_start_time = isoformat (start_time e), d_end_time = isoformat (end_time e),
             d_location = location e, d_attendees = attendees e,
             d_reminder_minutes = reminder_minutes e, d_is_all_day = is_all_day e,
             d_recurrence = recurrence e, d_created_at = isoformat (created_at e)\<rparr>)"
    by (rule from_dict_to_dict(1)[OF v])
  fix t assume "t \<in> {start_time e, end_time e, created_at e}"
  with v have t: "0 \<le> t" "t \<le> dt_max" by auto
  show "fromisoformat (isoformat t) = Inr t" by (rule fromisoformat_isoformat(1)[OF t])
  show "length (isoformat t) = 19 \<or> length (isoformat t) = 26"
    by (rule fromisoformat_isoformat(2)[OF t])
  from fromisoformat_isoformat(3)[OF t]
  show "isoformat t ! 4 = CHR ''-''" "isoformat t ! 7 = CHR ''-''" "isoformat t ! 10 = CHR ''T''"
    "isoformat t ! 13 = CHR '':''" "isoformat t ! 16 = CHR '':''" by simp_all
qed

theorem event_round_trip_witness:
  "(\<exists>ds. to_dicts [ev_A, ev_B] = Inr ds \<and> from_dicts ds = Inr [ev_A, ev_B])
   \<and> isoformat (start_time ev_A) = ''2024-03-04T10:00:00''
   \<and> fromisoformat ''2024-03-04T10:00:00'' = Inr (start_time ev_A)
   \<and> events (load_events (save_events env_ok \<lparr>events = [ev_A, ev_B], data_file = No_file\<rparr>))
       = [ev_A, ev_B]"
proof -
  have h: "\<forall>e\<in>set [ev_A, ev_B]. 0 \<le> start_time e \<and> start_time e \<le> dt_max
             \<and> 0 \<le> end_time e \<and> end_time e \<le> dt_max
             \<and> 0 \<le> created_at e \<and> created_at e \<le> dt_max
             \<and> \<not> to_dict_hidden e \<and> fields_attr e = None"
    by (simp add: example_defs ev_B_def dt_max_def MAXORDINAL_def)
  note t = event_round_trip[OF h, of env_ok No_file]
  have a: "ev_A \<in> set [ev_A, ev_B]" by simp
  have b: "start_time ev_A \<in> {start_time ev_A, end_time ev_A, created_at ev_A}" by simp
  have w: "write_result env_ok = Written" by (simp add: env_ok_def)
  note r = t[THEN conjunct2, THEN conjunct1, THEN bspec, OF a, THEN conjunct2, THEN bspec, OF b,
      THEN conjunct1]
  have i: "isoformat (start_time ev_A) = ''2024-03-04T10:00:00''" by code_simp
  from t[THEN conjunct1] i r[unfolded i] t[THEN conjunct2, THEN conjunct2, THEN mp, OF w]
  show ?thesis by (intro conjI)
qed

end
